theory Spec2Isabelle
  imports Complex_Main "HOL-Library.Word" "HOL-Library.Multiset"
begin

section \<open>The colour palette picker (src/script.js)\<close>

text \<open>
  The script keeps its state in module-level variables and changes it from event
  handlers. The embedding below follows the script function by function and keeps its
  names. Three conventions hold throughout.

  \<^item> JavaScript numbers are modelled exactly: integer-valued ones (colour channels,
    pixel indices) as \<open>int\<close>, the others (zoom, pan, pointer coordinates, HSL
    components) as \<open>rat\<close>. Rounding errors of IEEE doubles and the non-finite values
    are outside the model, except where a function's result is \<open>NaN\<close> by a division
    \<open>0 / 0\<close>, which is modelled as \<open>None\<close>.
  \<^item> An object with the fields \<open>r\<close>, \<open>g\<close>, \<open>b\<close> (or \<open>h\<close>, \<open>s\<close>, \<open>l\<close>) is a
    triple in that order; \<open>null\<close> is \<open>None\<close>.
  \<^item> Arrays of colours live in an explicit store, since the script both copies them
    (\<open>[...colors]\<close>, \<open>slice()\<close>) and changes them in place (\<open>push\<close>,
    \<open>splice\<close>).
\<close>

subsection \<open>Constants\<close>

definition MAX_COLORS :: nat where
  "MAX_COLORS = 21"

definition MIN_CROP_SIZE :: int where
  "MIN_CROP_SIZE = 10"

definition MAX_UNDO_STACK :: nat where
  "MAX_UNDO_STACK = 10"

subsection \<open>RGB and HEX\<close>

text \<open>
  \<open>Number.prototype.toString(16)\<close> on an integer: the digits of the absolute value in
  lower case, after a minus sign when the number is negative.
\<close>

definition hexDigit :: "nat \<Rightarrow> char" where
  "hexDigit d = ''0123456789abcdef'' ! (d mod 16)"

fun hexDigits :: "nat \<Rightarrow> string" where
  "hexDigits n = (if n < 16 then [hexDigit n] else hexDigits (n div 16) @ [hexDigit (n mod 16)])"

declare hexDigits.simps [simp del]

definition toString16 :: "int \<Rightarrow> string" where
  "toString16 x = (if x < 0 then CHR ''-'' # hexDigits (nat (- x)) else hexDigits (nat x))"

text \<open>
  \<^verbatim>\<open>
  function rgbToHex(r, g, b) {
      return '#' + [r, g, b].map(x => {
          const hex = x.toString(16);
          return hex.length === 1 ? '0' + hex : hex;
      }).join('');
  }
  \<close>
  There is no check of the range of a channel and no clamping.
\<close>

definition padHex :: "int \<Rightarrow> string" where
  "padHex x = (let hex = toString16 x in if length hex = 1 then CHR ''0'' # hex else hex)"

definition rgbToHex :: "int \<Rightarrow> int \<Rightarrow> int \<Rightarrow> string" where
  "rgbToHex r g b = CHR ''#'' # concat (map padHex [r, g, b])"

text \<open>
  \<^verbatim>\<open>
  function hexToRgb(hex) {
      const result = /^#?([a-f\d]{2})([a-f\d]{2})([a-f\d]{2})$/i.exec(hex);
      return result ? { r: parseInt(result[1], 16), g: parseInt(result[2], 16),
                        b: parseInt(result[3], 16) } : null;
  }
  \<close>
  The pattern accepts an optional \<open>#\<close> and then exactly six hexadecimal digits of
  either case. \<open>parseInt16\<close> is \<open>parseInt(_, 16)\<close> on such digits, and
  \<open>positionFrom xs x i\<close> is \<open>i\<close> plus the first position of \<open>x\<close> in \<open>xs\<close>, or
  \<open>-1\<close>.
\<close>

definition isHexDigit :: "char \<Rightarrow> bool" where
  "isHexDigit c = (c \<in> set ''0123456789abcdefABCDEF'')"

fun positionFrom :: "'a list \<Rightarrow> 'a \<Rightarrow> int \<Rightarrow> int" where
  "positionFrom [] x i = - 1"
| "positionFrom (y # ys) x i = (if y = x then i else positionFrom ys x (i + 1))"

definition hexVal :: "char \<Rightarrow> int" where
  "hexVal c =
     (let lower = positionFrom ''0123456789abcdef'' c 0
      in if lower \<ge> 0 then lower else positionFrom ''ABCDEF'' c 10)"

definition parseInt16 :: "string \<Rightarrow> int" where
  "parseInt16 s = foldl (\<lambda>acc c. 16 * acc + hexVal c) 0 s"

definition hexToRgb :: "string \<Rightarrow> (int \<times> int \<times> int) option" where
  "hexToRgb hex =
     (let body = (case hex of [] \<Rightarrow> [] | c # cs \<Rightarrow> if c = CHR ''#'' then cs else hex)
      in if length body = 6 \<and> list_all isHexDigit body
         then Some (parseInt16 (take 2 body), parseInt16 (take 2 (drop 2 body)),
                    parseInt16 (take 2 (drop 4 body)))
         else None)"

subsection \<open>RGB and HSL\<close>

text \<open>
  \<^verbatim>\<open>
  function rgbToHsl(r, g, b) {
      r /= 255; g /= 255; b /= 255;
      const max = Math.max(r, g, b);
      const min = Math.min(r, g, b);
      let h, s, l = (max + min) / 2;
      if (max === min) {
          h = s = 0;
      } else {
          const d = max - min;
          s = l > 0.5 ? d / (2 - max - min) : d / (max + min);
          switch (max) {
              case r: h = ((g - b) / d + (g < b ? 6 : 0)) / 6; break;
              case g: h = ((b - r) / d + 2) / 6; break;
              case b: h = ((r - g) / d + 4) / 6; break;
          }
      }
      return { h: h * 360, s: s * 100, l: l * 100 };
  }
  \<close>
  The maximum is one of the three channels, so the last case of the \<open>switch\<close> is the
  \<open>else\<close> of the model. For channels in \<open>[0, 255]\<close> no divisor is zero.
\<close>

definition rgbToHsl :: "int \<Rightarrow> int \<Rightarrow> int \<Rightarrow> rat \<times> rat \<times> rat" where
  "rgbToHsl r0 g0 b0 =
     (let r = of_int r0 / 255; g = of_int g0 / 255; b = of_int b0 / 255;
          mx = max r (max g b);
          mn = min r (min g b);
          l = (mx + mn) / 2
      in if mx = mn then (0 * 360, 0 * 100, l * 100)
         else
           let d = mx - mn;
               s = (if l > 1 / 2 then d / (2 - mx - mn) else d / (mx + mn));
               h = (if mx = r then ((g - b) / d + (if g < b then 6 else 0)) / 6
                    else if mx = g then ((b - r) / d + 2) / 6
                    else ((r - g) / d + 4) / 6)
           in (h * 360, s * 100, l * 100))"

text \<open>\<open>Math.round\<close> rounds to the nearest integer, a half towards plus infinity.\<close>

definition Math_round :: "rat \<Rightarrow> int" where
  "Math_round x = \<lfloor>x + 1 / 2\<rfloor>"

text \<open>
  \<^verbatim>\<open>
  function hslToRgb(h, s, l) {
      h = h / 360; s = s / 100; l = l / 100;
      let r, g, b;
      if (s === 0) {
          r = g = b = l;
      } else {
          const hue2rgb = (p, q, t) => {
              if (t < 0) t += 1;
              if (t > 1) t -= 1;
              if (t < 1/6) return p + (q - p) * 6 * t;
              if (t < 1/2) return q;
              if (t < 2/3) return p + (q - p) * (2/3 - t) * 6;
              return p;
          };
          const q = l < 0.5 ? l * (1 + s) : l + s - l * s;
          const p = 2 * l - q;
          r = hue2rgb(p, q, h + 1/3);
          g = hue2rgb(p, q, h);
          b = hue2rgb(p, q, h - 1/3);
      }
      return { r: Math.round(r * 255), g: Math.round(g * 255), b: Math.round(b * 255) };
  }
  \<close>
\<close>

definition hue2rgb :: "rat \<Rightarrow> rat \<Rightarrow> rat \<Rightarrow> rat" where
  "hue2rgb p q t0 =
     (let t1 = (if t0 < 0 then t0 + 1 else t0);
          t = (if t1 > 1 then t1 - 1 else t1)
      in if t < 1 / 6 then p + (q - p) * 6 * t
         else if t < 1 / 2 then q
         else if t < 2 / 3 then p + (q - p) * (2 / 3 - t) * 6
         else p)"

definition hslToRgb :: "rat \<Rightarrow> rat \<Rightarrow> rat \<Rightarrow> int \<times> int \<times> int" where
  "hslToRgb h0 s0 l0 =
     (let h = h0 / 360; s = s0 / 100; l = l0 / 100;
          (r, g, b) =
            (if s = 0 then (l, l, l)
             else
               let q = (if l < 1 / 2 then l * (1 + s) else l + s - l * s);
                   p = 2 * l - q
               in (hue2rgb p q (h + 1 / 3), hue2rgb p q h, hue2rgb p q (h - 1 / 3)))
      in (Math_round (r * 255), Math_round (g * 255), Math_round (b * 255)))"

subsection \<open>Variations of a colour\<close>

text \<open>
  \<^verbatim>\<open>
  function createColorVariations(r, g, b, count = 3) {
      const hsl = rgbToHsl(r, g, b);
      const variations = [];
      const lighter = hslToRgb(hsl.h, hsl.s, Math.min(100, hsl.l + 15));
      variations.push(rgbToHex(lighter.r, lighter.g, lighter.b));
      const darker = hslToRgb(hsl.h, hsl.s, Math.max(0, hsl.l - 15));
      variations.push(rgbToHex(darker.r, darker.g, darker.b));
      const desaturated = hslToRgb(hsl.h, Math.max(0, hsl.s - 30), hsl.l);
      variations.push(rgbToHex(desaturated.r, desaturated.g, desaturated.b));
      if (count >= 4) {
          const saturated = hslToRgb(hsl.h, Math.min(100, hsl.s + 20), hsl.l);
          variations.push(rgbToHex(saturated.r, saturated.g, saturated.b));
      }
      return variations.slice(0, count);
  }
  \<close>
  \<open>variations\<close> is local to the call and grows by \<open>push\<close>; the model appends.
  \<open>hexOfRgb c\<close> is \<open>rgbToHex(c.r, c.g, c.b)\<close>, and \<open>cnt\<close> is the parameter \<open>count\<close>.
\<close>

definition hexOfRgb :: "int \<times> int \<times> int \<Rightarrow> string" where
  "hexOfRgb c = (case c of (r, g, b) \<Rightarrow> rgbToHex r g b)"

definition createColorVariations :: "int \<Rightarrow> int \<Rightarrow> int \<Rightarrow> nat \<Rightarrow> string list" where
  "createColorVariations r g b cnt =
     (case rgbToHsl r g b of (h, s, l) \<Rightarrow>
        let variations0 = [];
            lighter = hslToRgb h s (min 100 (l + 15));
            variations1 = variations0 @ [hexOfRgb lighter];
            darker = hslToRgb h s (max 0 (l - 15));
            variations2 = variations1 @ [hexOfRgb darker];
            desaturated = hslToRgb h (max 0 (s - 30)) l;
            variations3 = variations2 @ [hexOfRgb desaturated];
            variations4 =
              (if cnt \<ge> 4
               then let saturated = hslToRgb h (min 100 (s + 20)) l
                    in variations3 @ [hexOfRgb saturated]
               else variations3)
        in take cnt variations4)"

subsection \<open>The state of the script\<close>

text \<open>
  An array of colours is a reference into \<open>heap\<close>; \<open>nextRef\<close> is the first
  reference not yet given out. \<open>colors\<close> holds the reference of the current palette
  and \<open>undoStack\<close> the references of the saved palettes, oldest first (the array
  \<open>undoStack\<close> itself is only ever reached through its variable, so it is a list
  value). The decoded image is its size and its pixel bytes (red, green, blue; the
  script never reads alpha). \<open>cropStartX\<close> is \<open>null\<close> between crop gestures.
  \<open>messages\<close> records the calls of \<open>showNotification\<close> and \<open>alert\<close>. The DOM is
  not modelled.
\<close>

type_synonym ref = nat

record image =
  width :: nat
  height :: nat
  pixels :: "int \<Rightarrow> int \<Rightarrow> 8 word \<times> 8 word \<times> 8 word"

datatype prefill_mode = Basic | Advanced

datatype message = Notification string | Alert string

datatype exn = TypeError

record state =
  heap :: "ref \<Rightarrow> string list"
  nextRef :: ref
  colors :: ref
  undoStack :: "ref list"
  currentImage :: "image option"
  zoom :: rat
  panX :: rat
  panY :: rat
  cropStartX :: "rat option"
  cropStartY :: rat
  cropEndX :: rat
  cropEndY :: rat
  cropPrefillMode :: "prefill_mode option"
  messages :: "message list"

text \<open>A new array with the given elements: the changed state and the reference.\<close>

definition newArray :: "state \<Rightarrow> string list \<Rightarrow> state \<times> ref" where
  "newArray st xs =
     (st\<lparr>heap := (heap st)(nextRef st := xs), nextRef := Suc (nextRef st)\<rparr>, nextRef st)"

text \<open>The palette in manual order, and the saved palettes, as values.\<close>

definition palette :: "state \<Rightarrow> string list" where
  "palette st = heap st (colors st)"

definition history :: "state \<Rightarrow> string list list" where
  "history st = map (heap st) (undoStack st)"

text \<open>
  The state at the start of a session: \<open>colors = []\<close>, \<open>undoStack = []\<close>, no image,
  \<open>zoom = 1\<close>, no pan.
\<close>

definition initialState :: state where
  "initialState =
     \<lparr>heap = (\<lambda>_. []), nextRef = 1, colors = 0, undoStack = [], currentImage = None,
      zoom = 1, panX = 0, panY = 0, cropStartX = Some 0, cropStartY = 0, cropEndX = 0,
      cropEndY = 0, cropPrefillMode = None, messages = []\<rparr>"

text \<open>
  References in use are below \<open>nextRef\<close>, no saved palette is the array of the
  current palette, and no two saved palettes are the same array.
\<close>

definition wf :: "state \<Rightarrow> bool" where
  "wf st \<longleftrightarrow>
     colors st < nextRef st \<and> list_all (\<lambda>a. a < nextRef st) (undoStack st) \<and>
     colors st \<notin> set (undoStack st) \<and> distinct (undoStack st)"

subsection \<open>Sorting by hue\<close>

text \<open>
  \<^verbatim>\<open>
  function sortByHue(colorArray) {
      return colorArray.slice().sort((a, b) => {
          const rgbA = hexToRgb(a);
          const rgbB = hexToRgb(b);
          const hslA = rgbToHsl(rgbA.r, rgbA.g, rgbA.b);
          const hslB = rgbToHsl(rgbB.r, rgbB.g, rgbB.b);
          return hslA.h - hslB.h;
      });
  }
  \<close>
  \<open>slice()\<close> makes a new array and \<open>sort\<close> orders that one in place. The
  comparison function throws a \<open>TypeError\<close> when \<open>hexToRgb\<close> returns \<open>null\<close> for
  one of its arguments, and returns the difference of the hues otherwise.

  For \<open>Array.prototype.sort\<close> the standard fixes the result, not the algorithm: with
  a consistent comparison function the array is sorted by it and elements that compare
  equal keep their order (ECMAScript 2019). \<open>arraySort\<close> is the insertion sort with
  that result; like every sort by comparisons it calls the function on every element
  of an array of two or more, and on none of a shorter array. An exception of the
  function ends the sort.
\<close>

definition compareHue :: "string \<Rightarrow> string \<Rightarrow> exn + rat" where
  "compareHue a b =
     (case hexToRgb a of
        None \<Rightarrow> Inl TypeError
      | Some (ra, ga, ba) \<Rightarrow>
          (case hexToRgb b of
             None \<Rightarrow> Inl TypeError
           | Some (rb, gb, bb) \<Rightarrow>
               (case rgbToHsl ra ga ba of (ha, sa, la) \<Rightarrow>
                case rgbToHsl rb gb bb of (hb, sb, lb) \<Rightarrow> Inr (ha - hb))))"

fun insertSorted :: "('a \<Rightarrow> 'a \<Rightarrow> exn + rat) \<Rightarrow> 'a \<Rightarrow> 'a list \<Rightarrow> exn + 'a list" where
  "insertSorted cmp x [] = Inr [x]"
| "insertSorted cmp x (y # ys) =
     (case cmp x y of
        Inl e \<Rightarrow> Inl e
      | Inr c \<Rightarrow>
          if c \<le> 0 then Inr (x # y # ys)
          else (case insertSorted cmp x ys of Inl e \<Rightarrow> Inl e | Inr zs \<Rightarrow> Inr (y # zs)))"

fun arraySort :: "('a \<Rightarrow> 'a \<Rightarrow> exn + rat) \<Rightarrow> 'a list \<Rightarrow> exn + 'a list" where
  "arraySort cmp [] = Inr []"
| "arraySort cmp (x # xs) =
     (case arraySort cmp xs of Inl e \<Rightarrow> Inl e | Inr ys \<Rightarrow> insertSorted cmp x ys)"

definition sortByHue :: "state \<Rightarrow> ref \<Rightarrow> exn + state \<times> ref" where
  "sortByHue st colorArray =
     (case newArray st (heap st colorArray) of (st1, sliced) \<Rightarrow>
        (case arraySort compareHue (heap st1 sliced) of
           Inl e \<Rightarrow> Inl e
         | Inr ordered \<Rightarrow> Inr (st1\<lparr>heap := (heap st1)(sliced := ordered)\<rparr>, sliced)))"

text \<open>
  A string is a colour when \<open>hexToRgb\<close> accepts it, and \<open>hue\<close> is the hue the
  comparison function computes for a colour.
\<close>

definition isColor :: "string \<Rightarrow> bool" where
  "isColor c = (hexToRgb c \<noteq> None)"

definition hue :: "string \<Rightarrow> rat" where
  "hue c = (case hexToRgb c of Some (r, g, b) \<Rightarrow> fst (rgbToHsl r g b) | None \<Rightarrow> 0)"

subsection \<open>The undo stack\<close>

text \<open>
  \<^verbatim>\<open>
  function saveState() {
      undoStack.push([...colors]);
      if (undoStack.length > MAX_UNDO_STACK) {
          undoStack.shift();
      }
      updateUndoButton();
  }
  \<close>
  \<open>[...colors]\<close> is a new array with the elements of \<open>colors\<close>; \<open>push\<close> adds at
  the end and \<open>shift\<close> removes the first element.
\<close>

definition saveState :: "state \<Rightarrow> state" where
  "saveState st =
     (case newArray st (heap st (colors st)) of (st1, copy) \<Rightarrow>
        let pushed = undoStack st1 @ [copy]
        in st1\<lparr>undoStack := (if length pushed > MAX_UNDO_STACK then tl pushed else pushed)\<rparr>)"

text \<open>
  \<^verbatim>\<open>
  function undo() {
      if (undoStack.length === 0) return;
      colors = undoStack.pop();
      updateUndoButton();
      renderPalette();
      showNotification('Undo successful');
  }
  \<close>
\<close>

definition undo :: "state \<Rightarrow> state" where
  "undo st =
     (if length (undoStack st) = 0 then st
      else st\<lparr>colors := last (undoStack st), undoStack := butlast (undoStack st),
              messages := messages st @ [Notification ''Undo successful'']\<rparr>)"

subsection \<open>Picking a colour\<close>

text \<open>
  \<^verbatim>\<open>
  function canvasToImageCoords(canvasX, canvasY) {
      return { x: (canvasX - panX * zoom) / zoom, y: (canvasY - panY * zoom) / zoom };
  }
  \<close>
  The model is exact where \<open>zoom\<close> is not zero; the script sets it to a positive ratio
  of sizes in \<open>initializeCanvas\<close> and keeps it in \<open>[0.1, 10]\<close> in \<open>handleWheel\<close>.
\<close>

definition canvasToImageCoords :: "state \<Rightarrow> rat \<Rightarrow> rat \<Rightarrow> rat \<times> rat" where
  "canvasToImageCoords st canvasX canvasY =
     ((canvasX - panX st * zoom st) / zoom st, (canvasY - panY st * zoom st) / zoom st)"

text \<open>
  \<^verbatim>\<open>
  function sampleArea(x, y) {
      ...
      let r = 0, g = 0, b = 0, count = 0;
      for (let dy = -1; dy <= 1; dy++) {
          for (let dx = -1; dx <= 1; dx++) {
              const px = x + dx;
              const py = y + dy;
              if (px >= 0 && py >= 0 && px < currentImage.width && py < currentImage.height) {
                  const imageData = tempCtx.getImageData(px, py, 1, 1).data;
                  r += imageData[0]; g += imageData[1]; b += imageData[2];
                  count++;
              }
          }
      }
      return { r: Math.round(r / count), g: Math.round(g / count), b: Math.round(b / count) };
  }
  \<close>
  \<open>sampleStep\<close> is the body of the inner loop, with \<open>cnt\<close> for the variable
  \<open>count\<close>, and \<open>sampleSums\<close> is the two loops. When
  \<open>count\<close> is 0 the three sums are 0 too and every channel of the result is
  \<open>0 / 0\<close>, that is \<open>NaN\<close>: the model returns \<open>None\<close>.
\<close>

definition sampleStep ::
  "image \<Rightarrow> int \<Rightarrow> int \<Rightarrow> int \<times> int \<times> int \<times> nat \<Rightarrow> int \<times> int \<Rightarrow> int \<times> int \<times> int \<times> nat" where
  "sampleStep img x y acc off =
     (case acc of (r, g, b, cnt) \<Rightarrow>
      case off of (dx, dy) \<Rightarrow>
        let px = x + dx; py = y + dy
        in if px \<ge> 0 \<and> py \<ge> 0 \<and> px < int (width img) \<and> py < int (height img)
           then (case pixels img px py of (pr, pg, pb) \<Rightarrow>
                   (r + uint pr, g + uint pg, b + uint pb, cnt + 1))
           else (r, g, b, cnt))"

definition sampleSums :: "image \<Rightarrow> int \<Rightarrow> int \<Rightarrow> int \<times> int \<times> int \<times> nat" where
  "sampleSums img x y =
     foldl (sampleStep img x y) (0, 0, 0, 0) [(dx, dy). dy \<leftarrow> [-1, 0, 1], dx \<leftarrow> [-1, 0, 1]]"

definition sampleArea :: "image \<Rightarrow> int \<Rightarrow> int \<Rightarrow> (int \<times> int \<times> int) option" where
  "sampleArea img x y =
     (case sampleSums img x y of (r, g, b, cnt) \<Rightarrow>
        if cnt = 0 then None
        else Some (Math_round (of_int r / of_nat cnt), Math_round (of_int g / of_nat cnt),
                   Math_round (of_int b / of_nat cnt)))"

text \<open>
  \<^verbatim>\<open>
  function pickColorAtPoint(e) {
      if (!currentImage || colors.length >= MAX_COLORS) return;
      const { x: canvasX, y: canvasY } = getCanvasCoords(e);
      const { x: imageX, y: imageY } = canvasToImageCoords(canvasX, canvasY);
      if (imageX < 0 || imageY < 0 || imageX >= currentImage.width
          || imageY >= currentImage.height) {
          return;
      }
      saveState();
      const color = sampleArea(Math.floor(imageX), Math.floor(imageY));
      const hex = rgbToHex(color.r, color.g, color.b);
      colors.push(hex);
      renderPalette();
  }
  \<close>
  The model takes the canvas coordinates of the event. \<open>colors.push\<close> changes the
  array of the palette in place. With three \<open>NaN\<close> channels \<open>rgbToHex\<close> would give
  \<open>#NaNNaNNaN\<close>.
\<close>

definition pickColorAtPoint :: "state \<Rightarrow> rat \<Rightarrow> rat \<Rightarrow> state" where
  "pickColorAtPoint st canvasX canvasY =
     (case currentImage st of
        None \<Rightarrow> st
      | Some img \<Rightarrow>
          if length (heap st (colors st)) \<ge> MAX_COLORS then st
          else
            (case canvasToImageCoords st canvasX canvasY of (imageX, imageY) \<Rightarrow>
               if imageX < 0 \<or> imageY < 0 \<or> imageX \<ge> of_nat (width img)
                  \<or> imageY \<ge> of_nat (height img)
               then st
               else
                 let st1 = saveState st;
                     hex = (case sampleArea img \<lfloor>imageX\<rfloor> \<lfloor>imageY\<rfloor> of
                              Some color \<Rightarrow> hexOfRgb color
                            | None \<Rightarrow> ''#NaNNaNNaN'')
                 in st1\<lparr>heap := (heap st1)(colors st1 := heap st1 (colors st1) @ [hex])\<rparr>))"

subsection \<open>Removing and clearing\<close>

text \<open>
  \<^verbatim>\<open>
  function removeColor(hex, index) {
      const actualIndex = colors.indexOf(hex);
      if (actualIndex > -1) {
          saveState();
          ... // fade the block out, then, from a timer:
          colors.splice(actualIndex, 1);
          renderPalette(false);
      }
  }
  function clearAll() {
      if (colors.length === 0) return;
      saveState();
      ... // fade the blocks out, then, from a timer:
      colors = [];
      renderPalette();
  }
  \<close>
  The script changes the palette from a timer, 0.2 to 0.9 seconds after the click; the
  model changes it at once, so no other event comes between the click and its timer.
  \<open>index\<close> only chooses the block to fade out.
\<close>

definition indexOf :: "string list \<Rightarrow> string \<Rightarrow> int" where
  "indexOf xs x = positionFrom xs x 0"

definition removeColor :: "state \<Rightarrow> string \<Rightarrow> nat \<Rightarrow> state" where
  "removeColor st hex index =
     (let actualIndex = indexOf (heap st (colors st)) hex
      in if actualIndex > - 1
         then
           let st1 = saveState st;
               xs = heap st1 (colors st1)
           in st1\<lparr>heap := (heap st1)(colors st1 :=
                   take (nat actualIndex) xs @ drop (nat actualIndex + 1) xs)\<rparr>
         else st)"

definition clearAll :: "state \<Rightarrow> state" where
  "clearAll st =
     (if length (heap st (colors st)) = 0 then st
      else
        (case newArray (saveState st) [] of (st2, emptied) \<Rightarrow> st2\<lparr>colors := emptied\<rparr>))"

subsection \<open>Prefilling\<close>

text \<open>
  \<^verbatim>\<open>
  function prefillPaletteFromImage(image) {
      if (!image) return;
      try {
          saveState();
          const colorThief = new ColorThief();
          const palette = colorThief.getPalette(image, 20);
          colors = palette.map(rgb => rgbToHex(rgb[0], rgb[1], rgb[2]));
          renderPalette();
      } catch (error) {
          console.error('ColorThief error:', error);
          alert('Failed to extract colors. Make sure the image is loaded correctly.');
      }
  }
  \<close>
  ColorThief is a library outside the script: \<open>getPalette\<close> is a parameter of the
  model, \<open>None\<close> when the library throws or returns no array. \<open>image'\<close> is the
  parameter \<open>image\<close>.
\<close>

type_synonym extractor = "image \<Rightarrow> nat \<Rightarrow> (int \<times> int \<times> int) list option"

definition extractionFailed :: "state \<Rightarrow> state" where
  "extractionFailed st =
     st\<lparr>messages := messages st
          @ [Alert ''Failed to extract colors. Make sure the image is loaded correctly.'']\<rparr>"

definition prefillPaletteFromImage :: "extractor \<Rightarrow> state \<Rightarrow> image option \<Rightarrow> state" where
  "prefillPaletteFromImage getPalette st image' =
     (case image' of
        None \<Rightarrow> st
      | Some img \<Rightarrow>
          let st1 = saveState st
          in (case getPalette img 20 of
                None \<Rightarrow> extractionFailed st1
              | Some pal \<Rightarrow>
                  (case newArray st1 (map hexOfRgb pal) of (st2, mapped) \<Rightarrow>
                     st2\<lparr>colors := mapped\<rparr>)))"

definition prefillPalette :: "extractor \<Rightarrow> state \<Rightarrow> state" where
  "prefillPalette getPalette st = prefillPaletteFromImage getPalette st (currentImage st)"

text \<open>
  \<^verbatim>\<open>
  function prefillAdvancedPaletteFromImage(image) {
      if (!image) return;
      try {
          saveState();
          const colorThief = new ColorThief();
          const mainPalette = colorThief.getPalette(image, 5);
          colors = [];
          mainPalette.forEach((rgb, index) => {
              const baseHex = rgbToHex(rgb[0], rgb[1], rgb[2]);
              colors.push(baseHex);
              if (index === 0) {
                  const variations = createColorVariations(rgb[0], rgb[1], rgb[2], 4);
                  colors.push(...variations);
              } else {
                  const variations = createColorVariations(rgb[0], rgb[1], rgb[2], 3);
                  colors.push(...variations);
              }
          });
          renderPalette();
      } catch (error) { ... the same alert ... }
  }
  \<close>
  \<open>advancedColors\<close> is what the \<open>forEach\<close> pushes, in order, on the new empty array.
\<close>

definition advancedColors :: "(int \<times> int \<times> int) list \<Rightarrow> string list" where
  "advancedColors mainPalette =
     concat (map (\<lambda>(index, rgb).
                    case rgb of (r, g, b) \<Rightarrow>
                      rgbToHex r g b
                      # (if index = 0 then createColorVariations r g b 4
                         else createColorVariations r g b 3))
                 (enumerate 0 mainPalette))"

definition prefillAdvancedPaletteFromImage :: "extractor \<Rightarrow> state \<Rightarrow> image option \<Rightarrow> state" where
  "prefillAdvancedPaletteFromImage getPalette st image' =
     (case image' of
        None \<Rightarrow> st
      | Some img \<Rightarrow>
          let st1 = saveState st
          in (case getPalette img 5 of
                None \<Rightarrow> extractionFailed st1
              | Some mainPalette \<Rightarrow>
                  (case newArray st1 (advancedColors mainPalette) of (st2, filled) \<Rightarrow>
                     st2\<lparr>colors := filled\<rparr>)))"

definition prefillAdvancedPalette :: "extractor \<Rightarrow> state \<Rightarrow> state" where
  "prefillAdvancedPalette getPalette st =
     prefillAdvancedPaletteFromImage getPalette st (currentImage st)"

subsection \<open>Prefilling from a crop\<close>

text \<open>
  \<^verbatim>\<open>
  function executeCropPrefill() {
      if (!currentImage || cropStartX === null) return;
      const x1 = Math.min(cropStartX, cropEndX);
      const y1 = Math.min(cropStartY, cropEndY);
      const x2 = Math.max(cropStartX, cropEndX);
      const y2 = Math.max(cropStartY, cropEndY);
      const imgCoords1 = canvasToImageCoords(x1, y1);
      const imgCoords2 = canvasToImageCoords(x2, y2);
      const imgX1 = Math.max(0, Math.floor(imgCoords1.x));
      const imgY1 = Math.max(0, Math.floor(imgCoords1.y));
      const imgX2 = Math.min(currentImage.width, Math.floor(imgCoords2.x));
      const imgY2 = Math.min(currentImage.height, Math.floor(imgCoords2.y));
      const cropWidth = imgX2 - imgX1;
      const cropHeight = imgY2 - imgY1;
      if (cropWidth < MIN_CROP_SIZE || cropHeight < MIN_CROP_SIZE) {
          showNotification('Selection too small. Please try again.');
          return;
      }
      ... // draw that rectangle of the image on a canvas of its size, load it as croppedImg
      croppedImg.onload = () => {
          if (cropPrefillMode === 'basic') { prefillPaletteFromImage(croppedImg); }
          else { prefillAdvancedPaletteFromImage(croppedImg); }
      };
  }
  \<close>
  \<open>cropRect\<close> is the rectangle the function computes, as
  \<open>(imgX1, imgY1, cropWidth, cropHeight)\<close>; the model runs the \<open>onload\<close> handler at
  once.
\<close>

definition cropRect :: "state \<Rightarrow> image \<Rightarrow> rat \<Rightarrow> int \<times> int \<times> int \<times> int" where
  "cropRect st img startX =
     (let x1 = min startX (cropEndX st);
          y1 = min (cropStartY st) (cropEndY st);
          x2 = max startX (cropEndX st);
          y2 = max (cropStartY st) (cropEndY st);
          imgCoords1 = canvasToImageCoords st x1 y1;
          imgCoords2 = canvasToImageCoords st x2 y2;
          imgX1 = max 0 \<lfloor>fst imgCoords1\<rfloor>;
          imgY1 = max 0 \<lfloor>snd imgCoords1\<rfloor>;
          imgX2 = min (int (width img)) \<lfloor>fst imgCoords2\<rfloor>;
          imgY2 = min (int (height img)) \<lfloor>snd imgCoords2\<rfloor>;
          cropWidth = imgX2 - imgX1;
          cropHeight = imgY2 - imgY1
      in (imgX1, imgY1, cropWidth, cropHeight))"

definition cropImage :: "image \<Rightarrow> int \<Rightarrow> int \<Rightarrow> int \<Rightarrow> int \<Rightarrow> image" where
  "cropImage img x y w h =
     \<lparr>width = nat w, height = nat h, pixels = (\<lambda>px py. pixels img (x + px) (y + py))\<rparr>"

definition executeCropPrefill :: "extractor \<Rightarrow> state \<Rightarrow> state" where
  "executeCropPrefill getPalette st =
     (case currentImage st of
        None \<Rightarrow> st
      | Some img \<Rightarrow>
          (case cropStartX st of
             None \<Rightarrow> st
           | Some startX \<Rightarrow>
               (case cropRect st img startX of (imgX1, imgY1, cropWidth, cropHeight) \<Rightarrow>
                  if cropWidth < MIN_CROP_SIZE \<or> cropHeight < MIN_CROP_SIZE
                  then st\<lparr>messages := messages st
                            @ [Notification ''Selection too small. Please try again.'']\<rparr>
                  else
                    let croppedImg = cropImage img imgX1 imgY1 cropWidth cropHeight
                    in if cropPrefillMode st = Some Basic
                       then prefillPaletteFromImage getPalette st (Some croppedImg)
                       else prefillAdvancedPaletteFromImage getPalette st (Some croppedImg))))"

subsection \<open>Export as text\<close>

text \<open>
  \<^verbatim>\<open>
  function exportColors() {
      if (colors.length === 0) return;
      const exported = colors.join(', ');
      navigator.clipboard.writeText(exported).then(...).catch(...);
  }
  \<close>
  The model returns the text given to the clipboard, \<open>None\<close> when the function
  returns before.
\<close>

fun join :: "string list \<Rightarrow> string \<Rightarrow> string" where
  "join [] sep = []"
| "join [x] sep = x"
| "join (x # y # ys) sep = x @ sep @ join (y # ys) sep"

definition exportColors :: "state \<Rightarrow> string option" where
  "exportColors st =
     (if length (heap st (colors st)) = 0 then None
      else Some (join (heap st (colors st)) '', ''))"

subsection \<open>The operations that change the palette\<close>

text \<open>
  The five operations a user has to change the palette, as the event listeners of the
  script start them, and for each the condition under which the script goes on to
  \<open>saveState\<close>.
\<close>

datatype operation =
  Pick rat rat | PrefillBasic | PrefillAdvanced | Remove string nat | Clear

fun perform :: "extractor \<Rightarrow> state \<Rightarrow> operation \<Rightarrow> state" where
  "perform getPalette st (Pick canvasX canvasY) = pickColorAtPoint st canvasX canvasY"
| "perform getPalette st PrefillBasic = prefillPalette getPalette st"
| "perform getPalette st PrefillAdvanced = prefillAdvancedPalette getPalette st"
| "perform getPalette st (Remove hex index) = removeColor st hex index"
| "perform getPalette st Clear = clearAll st"

fun accepted :: "state \<Rightarrow> operation \<Rightarrow> bool" where
  "accepted st (Pick canvasX canvasY) =
     (case currentImage st of
        None \<Rightarrow> False
      | Some img \<Rightarrow>
          length (palette st) < MAX_COLORS \<and>
          (case canvasToImageCoords st canvasX canvasY of (imageX, imageY) \<Rightarrow>
             0 \<le> imageX \<and> 0 \<le> imageY \<and> imageX < of_nat (width img)
             \<and> imageY < of_nat (height img)))"
| "accepted st PrefillBasic = (currentImage st \<noteq> None)"
| "accepted st PrefillAdvanced = (currentImage st \<noteq> None)"
| "accepted st (Remove hex index) = (hex \<in> set (palette st))"
| "accepted st Clear = (palette st \<noteq> [])"

text \<open>A run of operations, and a run in which every operation is accepted.\<close>

fun performAll :: "extractor \<Rightarrow> state \<Rightarrow> operation list \<Rightarrow> state" where
  "performAll getPalette st [] = st"
| "performAll getPalette st (x # xs) = performAll getPalette (perform getPalette st x) xs"

fun allAccepted :: "extractor \<Rightarrow> state \<Rightarrow> operation list \<Rightarrow> bool" where
  "allAccepted getPalette st [] = True"
| "allAccepted getPalette st (x # xs) =
     (accepted st x \<and> allAccepted getPalette (perform getPalette st x) xs)"

subsection \<open>Palettes of colours\<close>

text \<open>
  What the proofs below keep: every string of the palette and of the saved palettes is
  a colour. An extractor is taken to return channels in \<open>[0, 255]\<close>, as ColorThief
  does.
\<close>

definition inGamut :: "int \<times> int \<times> int \<Rightarrow> bool" where
  "inGamut c = (case c of (r, g, b) \<Rightarrow> 0 \<le> r \<and> r \<le> 255 \<and> 0 \<le> g \<and> g \<le> 255 \<and> 0 \<le> b \<and> b \<le> 255)"

definition channelsInRange :: "extractor \<Rightarrow> bool" where
  "channelsInRange getPalette \<longleftrightarrow>
     (\<forall>img n pal. getPalette img n = Some pal \<longrightarrow> list_all inGamut pal)"

definition coloursOnly :: "state \<Rightarrow> bool" where
  "coloursOnly st \<longleftrightarrow> list_all isColor (palette st) \<and> list_all (list_all isColor) (history st)"

subsection \<open>Example values\<close>

text \<open>
  A two by two image of red pixels and one of a hundred by a hundred, two extractors
  with a fixed answer, the state after the first image is loaded, and a run of eleven
  operations.
\<close>

definition redImage :: image where
  "redImage = \<lparr>width = 2, height = 2, pixels = (\<lambda>x y. (255, 0, 0))\<rparr>"

definition largeImage :: image where
  "largeImage = \<lparr>width = 100, height = 100, pixels = (\<lambda>x y. (255, 0, 0))\<rparr>"

definition twoColours :: extractor where
  "twoColours img n = Some [(255, 0, 0), (0, 0, 255)]"

definition fiveColours :: extractor where
  "fiveColours img n = Some [(255, 0, 0), (0, 255, 0), (0, 0, 255), (255, 255, 0), (0, 0, 0)]"

definition loadedState :: state where
  "loadedState = initialState\<lparr>currentImage := Some redImage\<rparr>"

definition elevenOperations :: "operation list" where
  "elevenOperations =
     [Pick 0 0, Pick 1 1, PrefillBasic, Remove ''#ff0000'' 0, Clear, PrefillBasic, Clear,
      Pick 0 0, Remove ''#ff0000'' 0, Pick 1 0, Clear]"

text \<open>The state whose palette is the given list, everything else as at the start.\<close>

definition withPalette :: "string list \<Rightarrow> state" where
  "withPalette xs = loadedState\<lparr>heap := (heap loadedState)(0 := xs)\<rparr>"

text \<open>A crop gesture from \<open>(10, 10)\<close> to \<open>(15, 60)\<close> on the large image.\<close>

definition narrowCrop :: state where
  "narrowCrop =
     initialState\<lparr>currentImage := Some largeImage, cropStartX := Some 10, cropStartY := 10,
       cropEndX := 15, cropEndY := 60, cropPrefillMode := Some Basic\<rparr>"

subsection \<open>Round trip\<close>

lemma hexDigit_table:
  "\<forall>d \<in> set [0..<16]. hexVal (hexDigit d) = int d \<and> isHexDigit (hexDigit d)"
  by code_simp

lemma hexVal_hexDigit: "d < 16 \<Longrightarrow> hexVal (hexDigit d) = int d"
  using hexDigit_table by simp

lemma isHexDigit_hexDigit: "isHexDigit (hexDigit d)"
proof -
  have "d mod 16 \<in> set [0..<16]" by simp
  then have "isHexDigit (hexDigit (d mod 16))"
    using hexDigit_table by blast
  then show ?thesis
    by (simp add: hexDigit_def)
qed

lemma padHex_channel:
  assumes "0 \<le> x" "x \<le> 255"
  shows "padHex x = [hexDigit (nat x div 16), hexDigit (nat x mod 16)]"
proof (cases "nat x < 16")
  case True
  then have "hexDigits (nat x) = [hexDigit (nat x)]"
    by (simp add: hexDigits.simps)
  moreover have "hexDigit 0 = CHR ''0''"
    by (simp add: hexDigit_def)
  ultimately show ?thesis
    using assms True by (simp add: padHex_def toString16_def)
next
  case False
  from assms have "nat x div 16 < 16" by linarith
  then have "hexDigits (nat x div 16) = [hexDigit (nat x div 16)]"
    by (simp add: hexDigits.simps)
  with False have "hexDigits (nat x) = [hexDigit (nat x div 16), hexDigit (nat x mod 16)]"
    by (subst hexDigits.simps) simp
  then show ?thesis
    using assms by (simp add: padHex_def toString16_def)
qed

lemma parseInt16_padHex:
  assumes "0 \<le> x" "x \<le> 255"
  shows "parseInt16 (padHex x) = x"
proof -
  from assms have "nat x div 16 < 16" by linarith
  then have "parseInt16 (padHex x) = 16 * int (nat x div 16) + int (nat x mod 16)"
    by (simp add: padHex_channel [OF assms] parseInt16_def hexVal_hexDigit)
  also have "\<dots> = x"
    using assms by (simp add: zdiv_int zmod_int)
  finally show ?thesis .
qed

lemma length_padHex: "0 \<le> x \<Longrightarrow> x \<le> 255 \<Longrightarrow> length (padHex x) = 2"
  by (simp add: padHex_channel)

lemma list_all_padHex: "0 \<le> x \<Longrightarrow> x \<le> 255 \<Longrightarrow> list_all isHexDigit (padHex x)"
  by (simp add: padHex_channel isHexDigit_hexDigit)

lemma hexToRgb_rgbToHex:
  assumes "0 \<le> r" "r \<le> 255" "0 \<le> g" "g \<le> 255" "0 \<le> b" "b \<le> 255"
  shows "hexToRgb (rgbToHex r g b) = Some (r, g, b)"
proof -
  have len: "length (padHex r) = 2" "length (padHex g) = 2" "length (padHex b) = 2"
    using assms by (simp_all add: length_padHex)
  have hexd: "list_all isHexDigit (padHex r @ padHex g @ padHex b)"
    using assms by (simp add: list_all_padHex)
  have "hexToRgb (rgbToHex r g b)
      = Some (parseInt16 (padHex r), parseInt16 (padHex g), parseInt16 (padHex b))"
    using len hexd by (simp add: hexToRgb_def rgbToHex_def)
  then show ?thesis
    using assms by (simp add: parseInt16_padHex)
qed

text \<open>
  Claim C4. For every integer triple \<open>r\<close>, \<open>g\<close>, \<open>b\<close> with each channel in
  \<open>[0, 255]\<close>, \<open>hexToRgb (rgbToHex r g b)\<close> succeeds and returns exactly the triple.
\<close>

theorem hexToRgb_rgbToHex_roundtrip:
  "0 \<le> r \<and> r \<le> 255 \<and> 0 \<le> g \<and> g \<le> 255 \<and> 0 \<le> b \<and> b \<le> 255
   \<Longrightarrow> hexToRgb (rgbToHex r g b) = Some (r, g, b)"
  by (simp add: hexToRgb_rgbToHex)

theorem hexToRgb_rgbToHex_roundtrip_witness:
  "rgbToHex 170 187 204 = ''#aabbcc'' \<and> hexToRgb (rgbToHex 170 187 204) = Some (170, 187, 204)"
proof -
  have "hexToRgb (rgbToHex 170 187 204) = Some (170, 187, 204)"
    using hexToRgb_rgbToHex_roundtrip [of 170 187 204] by simp
  moreover have "rgbToHex 170 187 204 = ''#aabbcc''"
    by (simp add: rgbToHex_def padHex_def toString16_def hexDigits.simps hexDigit_def)
  ultimately show ?thesis by simp
qed

subsection \<open>Saving the palette\<close>

lemma set_tl_subset: "a \<in> set (tl xs) \<Longrightarrow> a \<in> set xs"
  by (cases xs) auto

lemma saveState_fields:
  "colors (saveState st) = colors st"
  "nextRef (saveState st) = Suc (nextRef st)"
  "currentImage (saveState st) = currentImage st"
  "messages (saveState st) = messages st"
  "zoom (saveState st) = zoom st" "panX (saveState st) = panX st" "panY (saveState st) = panY st"
  "heap (saveState st) = (heap st)(nextRef st := heap st (colors st))"
  by (simp_all add: saveState_def newArray_def Let_def)

lemma undoStack_saveState:
  "undoStack (saveState st) =
     (if length (undoStack st) \<ge> MAX_UNDO_STACK then tl (undoStack st) @ [nextRef st]
      else undoStack st @ [nextRef st])"
  by (cases "undoStack st") (auto simp: saveState_def newArray_def Let_def MAX_UNDO_STACK_def)

lemma length_undoStack_saveState:
  "length (undoStack st) \<le> MAX_UNDO_STACK \<Longrightarrow>
   length (undoStack (saveState st)) = min MAX_UNDO_STACK (Suc (length (undoStack st)))"
  by (auto simp: undoStack_saveState MAX_UNDO_STACK_def)

lemma wf_saveState: "wf st \<Longrightarrow> wf (saveState st)"
  unfolding wf_def
  by (auto simp: saveState_fields undoStack_saveState list_all_iff distinct_tl less_Suc_eq
      dest!: set_tl_subset)

lemma palette_saveState: "wf st \<Longrightarrow> palette (saveState st) = palette st"
  by (simp add: palette_def saveState_fields wf_def)

lemma history_saveState:
  assumes "wf st"
  shows "history (saveState st) =
     (if length (history st) \<ge> MAX_UNDO_STACK then tl (history st) @ [palette st]
      else history st @ [palette st])"
proof -
  have old: "map ((heap st)(nextRef st := v)) (undoStack st) = map (heap st) (undoStack st)" for v
    using assms by (auto simp: wf_def list_all_iff)
  have old_tl: "map ((heap st)(nextRef st := v)) (tl (undoStack st)) = map (heap st) (tl (undoStack st))" for v
    using assms by (auto simp: wf_def list_all_iff dest: set_tl_subset)
  show ?thesis
    by (simp add: history_def palette_def saveState_fields undoStack_saveState old old_tl map_tl)
qed

subsection \<open>What an operation does to the undo stack\<close>

lemma history_heap_colors_upd:
  "wf st \<Longrightarrow> history (st\<lparr>heap := (heap st)(colors st := v)\<rparr>) = history st"
  by (auto simp: history_def wf_def)

lemma wf_heap_upd: "wf (st\<lparr>heap := hp\<rparr>) = wf st"
  by (simp add: wf_def)

lemma wf_messages_upd: "wf (st\<lparr>messages := ms\<rparr>) = wf st"
  by (simp add: wf_def)

lemma history_messages_upd: "history (st\<lparr>messages := ms\<rparr>) = history st"
  by (simp add: history_def)

lemma newArray_colors:
  assumes "wf st" "newArray st xs = (st2, a)"
  shows "wf (st2\<lparr>colors := a\<rparr>)" "history (st2\<lparr>colors := a\<rparr>) = history st"
    "palette (st2\<lparr>colors := a\<rparr>) = xs" "undoStack (st2\<lparr>colors := a\<rparr>) = undoStack st"
    "messages (st2\<lparr>colors := a\<rparr>) = messages st"
  using assms by (auto simp: newArray_def wf_def history_def palette_def list_all_iff less_Suc_eq)

lemma positionFrom_absent: "positionFrom xs x i = - 1 \<longleftrightarrow> x \<notin> set xs" if "0 \<le> i"
  using that
proof (induction xs arbitrary: i)
  case Nil
  then show ?case by simp
next
  case (Cons y ys)
  from Cons.prems have "0 \<le> i + 1" by simp
  from Cons.IH [OF this] Cons.prems show ?case by auto
qed

lemma positionFrom_lower: "x \<in> set xs \<Longrightarrow> i \<le> positionFrom xs x i"
proof (induction xs arbitrary: i)
  case Nil
  then show ?case by simp
next
  case (Cons y ys)
  show ?case
  proof (cases "y = x")
    case True
    then show ?thesis by simp
  next
    case False
    with Cons.prems have "x \<in> set ys" by simp
    from Cons.IH [OF this, of "i + 1"] False show ?thesis by simp
  qed
qed

lemma indexOf_found: "indexOf xs x > - 1 \<longleftrightarrow> x \<in> set xs"
proof
  assume "indexOf xs x > - 1"
  then have "positionFrom xs x 0 \<noteq> - 1" by (simp add: indexOf_def)
  then show "x \<in> set xs" by (simp add: positionFrom_absent)
next
  assume "x \<in> set xs"
  from positionFrom_lower [OF this, of 0] show "indexOf xs x > - 1"
    by (simp add: indexOf_def)
qed

lemma perform_rejected: "\<not> accepted st x \<Longrightarrow> perform getPalette st x = st"
proof (cases x)
  case (Pick canvasX canvasY)
  assume "\<not> accepted st x"
  with Pick show ?thesis
    by (auto simp: pickColorAtPoint_def palette_def not_less not_le split: option.splits prod.splits)
next
  case (Remove hex index)
  assume "\<not> accepted st x"
  with Remove have "\<not> indexOf (heap st (colors st)) hex > - 1"
    by (simp add: indexOf_found palette_def)
  with Remove show ?thesis
    by (simp add: removeColor_def Let_def)
qed (auto simp: prefillPalette_def prefillPaletteFromImage_def prefillAdvancedPalette_def
       prefillAdvancedPaletteFromImage_def clearAll_def palette_def)

lemma prefillPaletteFromImage_pushes:
  assumes "wf st"
  shows "wf (prefillPaletteFromImage getPalette st (Some img))
    \<and> history (prefillPaletteFromImage getPalette st (Some img)) = history (saveState st)
    \<and> undoStack (prefillPaletteFromImage getPalette st (Some img)) = undoStack (saveState st)"
proof (cases "getPalette img 20")
  case None
  with wf_saveState [OF assms] show ?thesis
    by (simp add: prefillPaletteFromImage_def extractionFailed_def wf_messages_upd
        history_messages_upd Let_def)
next
  case (Some pal)
  obtain st2 a where na: "newArray (saveState st) (map hexOfRgb pal) = (st2, a)"
    by (cases "newArray (saveState st) (map hexOfRgb pal)")
  with Some newArray_colors [OF wf_saveState [OF assms] na] show ?thesis
    by (simp add: prefillPaletteFromImage_def Let_def)
qed

lemma prefillAdvancedPaletteFromImage_pushes:
  assumes "wf st"
  shows "wf (prefillAdvancedPaletteFromImage getPalette st (Some img))
    \<and> history (prefillAdvancedPaletteFromImage getPalette st (Some img)) = history (saveState st)
    \<and> undoStack (prefillAdvancedPaletteFromImage getPalette st (Some img))
        = undoStack (saveState st)"
proof (cases "getPalette img 5")
  case None
  with wf_saveState [OF assms] show ?thesis
    by (simp add: prefillAdvancedPaletteFromImage_def extractionFailed_def wf_messages_upd
        history_messages_upd Let_def)
next
  case (Some mainPalette)
  obtain st2 a where na: "newArray (saveState st) (advancedColors mainPalette) = (st2, a)"
    by (cases "newArray (saveState st) (advancedColors mainPalette)")
  with Some newArray_colors [OF wf_saveState [OF assms] na] show ?thesis
    by (simp add: prefillAdvancedPaletteFromImage_def Let_def)
qed

lemma executeCropPrefill_pushes:
  assumes "wf st"
  shows "(history (executeCropPrefill getPalette st) = history st
          \<and> palette (executeCropPrefill getPalette st) = palette st)
       \<or> history (executeCropPrefill getPalette st) = history (saveState st)"
proof (cases "currentImage st")
  case None
  then show ?thesis by (simp add: executeCropPrefill_def)
next
  case (Some img)
  show ?thesis
  proof (cases "cropStartX st")
    case None
    with Some show ?thesis by (simp add: executeCropPrefill_def)
  next
    case (Some startX)
    obtain imgX1 imgY1 cropWidth cropHeight
      where rect: "cropRect st img startX = (imgX1, imgY1, cropWidth, cropHeight)"
      by (cases "cropRect st img startX")
    show ?thesis
    proof (cases "cropWidth < MIN_CROP_SIZE \<or> cropHeight < MIN_CROP_SIZE")
      case True
      with \<open>currentImage st = Some img\<close> Some rect show ?thesis
        by (auto simp: executeCropPrefill_def history_def palette_def)
    next
      case False
      with \<open>currentImage st = Some img\<close> Some rect
        prefillPaletteFromImage_pushes [OF assms]
        prefillAdvancedPaletteFromImage_pushes [OF assms]
      show ?thesis
        by (simp add: executeCropPrefill_def Let_def)
    qed
  qed
qed

lemma perform_accepted:
  assumes "wf st" "accepted st x"
  shows "wf (perform getPalette st x) \<and> history (perform getPalette st x) = history (saveState st)
    \<and> undoStack (perform getPalette st x) = undoStack (saveState st)"
proof -
  note sv = wf_saveState [OF assms(1)]
  show ?thesis
  proof (cases x)
    case (Pick canvasX canvasY)
    with assms(2) have "pickColorAtPoint st canvasX canvasY =
        (saveState st)\<lparr>heap := (heap (saveState st))(colors (saveState st) :=
           heap (saveState st) (colors (saveState st)) @
           [case sampleArea (the (currentImage st))
                  \<lfloor>fst (canvasToImageCoords st canvasX canvasY)\<rfloor>
                  \<lfloor>snd (canvasToImageCoords st canvasX canvasY)\<rfloor> of
              Some color \<Rightarrow> hexOfRgb color | None \<Rightarrow> ''#NaNNaNNaN''])\<rparr>"
      by (auto simp: pickColorAtPoint_def palette_def Let_def split: option.splits prod.splits)
    with Pick sv show ?thesis
      by (simp add: history_heap_colors_upd wf_heap_upd)
  next
    case PrefillBasic
    with assms(2) obtain img where "currentImage st = Some img" by auto
    with PrefillBasic prefillPaletteFromImage_pushes [OF assms(1)] show ?thesis
      by (simp add: prefillPalette_def)
  next
    case PrefillAdvanced
    with assms(2) obtain img where "currentImage st = Some img" by auto
    with PrefillAdvanced prefillAdvancedPaletteFromImage_pushes [OF assms(1)] show ?thesis
      by (simp add: prefillAdvancedPalette_def)
  next
    case (Remove hex index)
    with assms(2) have "indexOf (heap st (colors st)) hex > - 1"
      by (simp add: indexOf_found palette_def)
    with Remove sv show ?thesis
      by (simp add: removeColor_def Let_def history_heap_colors_upd wf_heap_upd)
  next
    case Clear
    obtain st2 a where na: "newArray (saveState st) [] = (st2, a)"
      by (cases "newArray (saveState st) []")
    with Clear assms(2) newArray_colors [OF sv na] show ?thesis
      by (simp add: clearAll_def palette_def)
  qed
qed

subsection \<open>Undo and runs of operations\<close>

lemma undoStack_undo: "undoStack (undo st) = butlast (undoStack st)"
  by (simp add: undo_def)

lemma undoStack_undo_funpow: "undoStack ((undo ^^ n) st) = take (length (undoStack st) - n) (undoStack st)"
proof (induction n)
  case 0
  then show ?case by simp
next
  case (Suc n)
  have "undoStack ((undo ^^ Suc n) st) = butlast (undoStack ((undo ^^ n) st))"
    by (simp add: undoStack_undo)
  also have "\<dots> = take (length (undoStack st) - Suc n) (undoStack st)"
    by (simp add: Suc.IH butlast_take)
  finally show ?case .
qed

lemma undo_empty: "undoStack st = [] \<Longrightarrow> undo st = st"
  by (simp add: undo_def)

lemma wf_undo: "wf st \<Longrightarrow> wf (undo st)"
proof (cases "undoStack st = []")
  case True
  assume "wf st"
  with True show ?thesis by (simp add: undo_def)
next
  case False
  assume wf: "wf st"
  from False obtain ys y where split: "undoStack st = ys @ [y]"
    by (cases "undoStack st" rule: rev_cases) auto
  with wf show ?thesis
    by (simp add: undo_def wf_def)
qed

lemma palette_undo:
  "undoStack st \<noteq> [] \<Longrightarrow> palette (undo st) = last (history st)"
  by (simp add: undo_def palette_def history_def last_map)

lemma history_undo: "wf st \<Longrightarrow> history (undo st) = butlast (history st)"
  by (simp add: undo_def history_def map_butlast)

lemma length_history: "length (history st) = length (undoStack st)"
  by (simp add: history_def)

lemma perform_undoStack_bound:
  assumes "wf st" "length (undoStack st) \<le> MAX_UNDO_STACK"
  shows "length (undoStack (perform getPalette st x)) \<le> MAX_UNDO_STACK"
proof (cases "accepted st x")
  case True
  from perform_accepted [OF assms(1) True, of getPalette] assms(2) show ?thesis
    by (simp add: length_undoStack_saveState)
next
  case False
  with assms(2) show ?thesis by (simp add: perform_rejected)
qed

lemma wf_perform: "wf st \<Longrightarrow> wf (perform getPalette st x)"
  by (cases "accepted st x") (simp_all add: perform_accepted perform_rejected)

lemma performAll_invariant:
  "wf st \<Longrightarrow> length (undoStack st) \<le> MAX_UNDO_STACK \<Longrightarrow>
   wf (performAll getPalette st xs) \<and> length (undoStack (performAll getPalette st xs)) \<le> MAX_UNDO_STACK"
proof (induction xs arbitrary: st)
  case Nil
  then show ?case by simp
next
  case (Cons x xs)
  from Cons.prems have "wf (perform getPalette st x)"
    "length (undoStack (perform getPalette st x)) \<le> MAX_UNDO_STACK"
    by (simp_all add: wf_perform perform_undoStack_bound)
  from Cons.IH [OF this] show ?case by simp
qed

lemma performAll_accepted_length:
  "wf st \<Longrightarrow> length (undoStack st) \<le> MAX_UNDO_STACK \<Longrightarrow> allAccepted getPalette st xs \<Longrightarrow>
   length (undoStack (performAll getPalette st xs))
     = min MAX_UNDO_STACK (length (undoStack st) + length xs)"
proof (induction xs arbitrary: st)
  case Nil
  then show ?case by simp
next
  case (Cons x xs)
  let ?st' = "perform getPalette st x"
  from Cons.prems have acc: "accepted st x" and rest: "allAccepted getPalette ?st' xs"
    by simp_all
  from Cons.prems have wf': "wf ?st'" and bound': "length (undoStack ?st') \<le> MAX_UNDO_STACK"
    by (simp_all add: wf_perform perform_undoStack_bound)
  have len: "length (undoStack ?st') = min MAX_UNDO_STACK (Suc (length (undoStack st)))"
    using perform_accepted [OF Cons.prems(1) acc, of getPalette] Cons.prems(2)
    by (simp add: length_undoStack_saveState)
  from Cons.IH [OF wf' bound' rest] len show ?case
    by (simp add: min_def)
qed

text \<open>
  Claim C2. Every operation that changes the palette (pick, prefill basic, prefill
  advanced, remove, clear) first pushes a copy of the palette as it was onto the undo
  stack: after an accepted operation the saved palettes are the earlier ones followed by
  the earlier palette, without the oldest when that makes more than 10, and no saved
  palette is the array of the current one (\<open>wf\<close>); an operation that is not accepted
  changes nothing. A prefill from a crop does the same or leaves palette and stack as
  they were. The stack never holds more than 10 palettes. After 11 accepted
  operations in a row it holds exactly 10, and after 10 calls of \<open>undo\<close> it is empty
  and one more \<open>undo\<close> changes nothing.
\<close>

theorem undo_stack_discipline:
  assumes "wf st" and "length (undoStack st) \<le> 10"
  shows "(accepted st x \<longrightarrow>
            wf (perform getPalette st x) \<and>
            history (perform getPalette st x) =
              (let pushed = history st @ [palette st]
               in if length pushed > 10 then tl pushed else pushed))
       \<and> (\<not> accepted st x \<longrightarrow> perform getPalette st x = st)
       \<and> ((history (executeCropPrefill getPalette st) = history st
             \<and> palette (executeCropPrefill getPalette st) = palette st)
          \<or> history (executeCropPrefill getPalette st) =
              (let pushed = history st @ [palette st]
               in if length pushed > 10 then tl pushed else pushed))
       \<and> length (history (performAll getPalette st xs)) \<le> 10
       \<and> length (history (undo st)) \<le> 10
       \<and> (allAccepted getPalette st xs \<and> length xs = 11 \<longrightarrow>
            length (history (performAll getPalette st xs)) = 10)
       \<and> history ((undo ^^ 10) st) = []
       \<and> undo ((undo ^^ 10) st) = (undo ^^ 10) st"
proof -
  from assms(2) have bound: "length (undoStack st) \<le> MAX_UNDO_STACK"
    by (simp add: MAX_UNDO_STACK_def)
  have push: "accepted st x \<Longrightarrow> wf (perform getPalette st x) \<and>
      history (perform getPalette st x) =
        (let pushed = history st @ [palette st]
         in if length pushed > 10 then tl pushed else pushed)"
    using perform_accepted [OF assms(1), of x getPalette] history_saveState [OF assms(1)]
    by (cases "history st") (auto simp: MAX_UNDO_STACK_def Let_def)
  have crop: "(history (executeCropPrefill getPalette st) = history st
             \<and> palette (executeCropPrefill getPalette st) = palette st)
          \<or> history (executeCropPrefill getPalette st) =
              (let pushed = history st @ [palette st]
               in if length pushed > 10 then tl pushed else pushed)"
    using executeCropPrefill_pushes [OF assms(1), of getPalette] history_saveState [OF assms(1)]
    by (cases "history st") (auto simp: MAX_UNDO_STACK_def Let_def)
  have run: "length (history (performAll getPalette st xs)) \<le> 10"
    using performAll_invariant [OF assms(1) bound, of getPalette xs]
    by (simp add: length_history MAX_UNDO_STACK_def)
  have un: "length (history (undo st)) \<le> 10"
    using assms(2) by (simp add: length_history undoStack_undo)
  have eleven: "length (history (performAll getPalette st xs)) = 10"
    if "allAccepted getPalette st xs" "length xs = 11"
    using performAll_accepted_length [OF assms(1) bound that(1)] that(2)
    by (simp add: length_history MAX_UNDO_STACK_def)
  have emp: "undoStack ((undo ^^ 10) st) = []"
    using assms(2) by (simp add: undoStack_undo_funpow)
  then have "history ((undo ^^ 10) st) = []" "undo ((undo ^^ 10) st) = (undo ^^ 10) st"
    by (simp_all add: history_def undo_empty)
  with push crop run un eleven show ?thesis
    by (simp add: perform_rejected)
qed

theorem undo_stack_discipline_witness:
  "wf loadedState \<and> length (undoStack loadedState) \<le> 10
   \<and> accepted loadedState (Pick 0 0)
   \<and> history (perform twoColours loadedState (Pick 0 0)) = [[]]
   \<and> allAccepted twoColours loadedState elevenOperations \<and> length elevenOperations = 11
   \<and> length (history (performAll twoColours loadedState elevenOperations)) = 10
   \<and> history ((undo ^^ 10) (performAll twoColours loadedState elevenOperations)) = []"
proof -
  let ?final = "performAll twoColours loadedState elevenOperations"
  have h1: "wf loadedState" by code_simp
  have h2: "length (undoStack loadedState) \<le> 10" by code_simp
  have h3: "accepted loadedState (Pick 0 0)" by code_simp
  have h4: "allAccepted twoColours loadedState elevenOperations" by code_simp
  have h5: "length elevenOperations = 11" by (simp add: elevenOperations_def)
  have h6: "wf ?final" by code_simp
  have h7: "length (undoStack ?final) \<le> 10" by code_simp
  have start: "history loadedState = []" "palette loadedState = []" by code_simp+
  note first = undo_stack_discipline [OF h1 h2, of "Pick 0 0" twoColours elevenOperations]
  note last = undo_stack_discipline [OF h6 h7, of Clear twoColours "[]"]
  from first h3 start have "history (perform twoColours loadedState (Pick 0 0)) = [[]]"
    by simp
  moreover from first h4 h5 have "length (history ?final) = 10"
    by blast
  moreover from last have "history ((undo ^^ 10) ?final) = []"
    by blast
  ultimately show ?thesis
    using h1 h2 h3 h4 h5 by blast
qed

subsection \<open>The display order\<close>

lemma compareHue_colors:
  "isColor a \<Longrightarrow> isColor b \<Longrightarrow> compareHue a b = Inr (hue a - hue b)"
  by (auto simp: isColor_def compareHue_def hue_def split: prod.splits)

lemma insertSorted_colors:
  "isColor x \<Longrightarrow> list_all isColor ys \<Longrightarrow>
   insertSorted compareHue x ys = Inr (insort_key hue x ys)"
  by (induction ys) (simp_all add: compareHue_colors)

lemma arraySort_colors:
  "list_all isColor xs \<Longrightarrow> arraySort compareHue xs = Inr (sort_key hue xs)"
proof (induction xs)
  case Nil
  then show ?case by simp
next
  case (Cons x xs)
  then have "list_all isColor (sort_key hue xs)"
    by (simp add: list_all_iff)
  with Cons show ?case
    by (simp add: insertSorted_colors)
qed

lemma sortByHue_result:
  "list_all isColor (heap st colorArray) \<Longrightarrow>
   sortByHue st colorArray =
     Inr (st\<lparr>heap := (heap st)(nextRef st := sort_key hue (heap st colorArray)),
             nextRef := Suc (nextRef st)\<rparr>, nextRef st)"
  by (simp add: sortByHue_def newArray_def arraySort_colors)



subsection \<open>Picking\<close>

text \<open>
  Claim C3. \<open>pickColorAtPoint\<close> changes nothing (not the palette, not the undo stack,
  and it raises no message) when the palette already holds 21 colours, whatever the
  point, and when the point, mapped to the image, lies outside the image.
\<close>

theorem pickColorAtPoint_rejected:
  assumes "21 \<le> length (palette st)
         \<or> (\<exists>img imageX imageY.
               currentImage st = Some img \<and> 0 < zoom st
             \<and> canvasToImageCoords st canvasX canvasY = (imageX, imageY)
             \<and> (imageX < 0 \<or> imageY < 0 \<or> of_nat (width img) \<le> imageX
                  \<or> of_nat (height img) \<le> imageY))"
  shows "pickColorAtPoint st canvasX canvasY = st"
  using assms
  by (auto simp: pickColorAtPoint_def palette_def MAX_COLORS_def split: option.splits)

theorem pickColorAtPoint_rejected_witness:
  "length (palette (withPalette (replicate 21 ''#ff0000''))) = 21
   \<and> accepted loadedState (Pick 1 1)
   \<and> pickColorAtPoint (withPalette (replicate 21 ''#ff0000'')) 1 1
       = withPalette (replicate 21 ''#ff0000'')
   \<and> currentImage loadedState = Some redImage \<and> 0 < zoom loadedState
   \<and> canvasToImageCoords loadedState 1 5 = (1, 5) \<and> of_nat (height redImage) \<le> (5 :: rat)
   \<and> pickColorAtPoint loadedState 1 5 = loadedState"
proof -
  have full: "length (palette (withPalette (replicate 21 ''#ff0000''))) = 21"
    by (simp add: withPalette_def palette_def loadedState_def initialState_def)
  have inside: "accepted loadedState (Pick 1 1)"
    by code_simp
  have img: "currentImage loadedState = Some redImage" "0 < zoom loadedState"
    by (simp_all add: loadedState_def initialState_def)
  have pt: "canvasToImageCoords loadedState 1 5 = (1, 5)"
    by (simp add: canvasToImageCoords_def loadedState_def initialState_def)
  have out: "of_nat (height redImage) \<le> (5 :: rat)"
    by (simp add: redImage_def)
  from full have "pickColorAtPoint (withPalette (replicate 21 ''#ff0000'')) 1 1
      = withPalette (replicate 21 ''#ff0000'')"
    by (intro pickColorAtPoint_rejected) simp
  moreover from img pt out have "pickColorAtPoint loadedState 1 5 = loadedState"
    by (intro pickColorAtPoint_rejected) blast
  ultimately show ?thesis
    using full inside img pt out by simp
qed

subsection \<open>Variations and the advanced prefill\<close>

lemma length_createColorVariations:
  "length (createColorVariations r g b cnt) = min cnt (if cnt \<ge> 4 then 4 else 3)"
  by (cases "rgbToHsl r g b") (simp add: createColorVariations_def Let_def)



lemma palette_prefillAdvanced:
  "getPalette img 5 = Some mainPalette \<Longrightarrow>
   palette (prefillAdvancedPaletteFromImage getPalette st (Some img)) = advancedColors mainPalette"
  by (simp add: prefillAdvancedPaletteFromImage_def palette_def newArray_def Let_def)

text \<open>
  Claim C5. When the extractor returns 5 main colours, the advanced prefill replaces
  the palette with exactly 21 colours: the first main colour and its 4 variations, then
  each of the other 4 main colours followed by its 3 variations, in the order of the
  extractor.
\<close>

theorem prefillAdvanced_five_main_colours:
  assumes "getPalette img 5 = Some [(r0, g0, b0), (r1, g1, b1), (r2, g2, b2), (r3, g3, b3), (r4, g4, b4)]"
  shows "palette (prefillAdvancedPaletteFromImage getPalette st (Some img)) =
           rgbToHex r0 g0 b0 # createColorVariations r0 g0 b0 4
           @ rgbToHex r1 g1 b1 # createColorVariations r1 g1 b1 3
           @ rgbToHex r2 g2 b2 # createColorVariations r2 g2 b2 3
           @ rgbToHex r3 g3 b3 # createColorVariations r3 g3 b3 3
           @ rgbToHex r4 g4 b4 # createColorVariations r4 g4 b4 3
       \<and> length (palette (prefillAdvancedPaletteFromImage getPalette st (Some img))) = 21
       \<and> length (createColorVariations r0 g0 b0 4) = 4
       \<and> length (createColorVariations r1 g1 b1 3) = 3"
proof -
  have "advancedColors [(r0, g0, b0), (r1, g1, b1), (r2, g2, b2), (r3, g3, b3), (r4, g4, b4)] =
           rgbToHex r0 g0 b0 # createColorVariations r0 g0 b0 4
           @ rgbToHex r1 g1 b1 # createColorVariations r1 g1 b1 3
           @ rgbToHex r2 g2 b2 # createColorVariations r2 g2 b2 3
           @ rgbToHex r3 g3 b3 # createColorVariations r3 g3 b3 3
           @ rgbToHex r4 g4 b4 # createColorVariations r4 g4 b4 3"
    by (simp add: advancedColors_def)
  with palette_prefillAdvanced [of getPalette img _ st] assms show ?thesis
    by (simp add: length_createColorVariations)
qed

theorem prefillAdvanced_five_main_colours_witness:
  "fiveColours redImage 5 = Some [(255, 0, 0), (0, 255, 0), (0, 0, 255), (255, 255, 0), (0, 0, 0)]
   \<and> length (palette (prefillAdvancedPaletteFromImage fiveColours loadedState (Some redImage))) = 21
   \<and> take 5 (palette (prefillAdvancedPaletteFromImage fiveColours loadedState (Some redImage)))
       = [''#ff0000'', ''#ff4d4d'', ''#b30000'', ''#d92626'', ''#ff0000'']
   \<and> palette (prefillAdvancedPaletteFromImage fiveColours loadedState (Some redImage)) ! 5 = ''#00ff00''
   \<and> palette (prefillAdvancedPaletteFromImage fiveColours loadedState (Some redImage)) ! 9 = ''#0000ff''"
proof -
  have five: "fiveColours redImage 5
      = Some [(255, 0, 0), (0, 255, 0), (0, 0, 255), (255, 255, 0), (0, 0, 0)]"
    by (simp add: fiveColours_def)
  have red: "createColorVariations 255 0 0 4 = [''#ff4d4d'', ''#b30000'', ''#d92626'', ''#ff0000'']"
    by code_simp
  have base: "rgbToHex 255 0 0 = ''#ff0000''" "rgbToHex 0 255 0 = ''#00ff00''"
    "rgbToHex 0 0 255 = ''#0000ff''"
    by code_simp+
  note inst = prefillAdvanced_five_main_colours [of fiveColours redImage _ _ _ _ _ _ _ _ _ _ _ _ _ _ _ loadedState, OF five]
  from inst have len: "length (palette (prefillAdvancedPaletteFromImage fiveColours loadedState (Some redImage))) = 21"
    by blast
  from inst have l3: "length (createColorVariations 0 255 0 3) = 3"
    by blast
  from inst have "palette (prefillAdvancedPaletteFromImage fiveColours loadedState (Some redImage)) =
      ''#ff0000'' # [''#ff4d4d'', ''#b30000'', ''#d92626'', ''#ff0000'']
      @ ''#00ff00'' # createColorVariations 0 255 0 3
      @ ''#0000ff'' # createColorVariations 0 0 255 3
      @ rgbToHex 255 255 0 # createColorVariations 255 255 0 3
      @ rgbToHex 0 0 0 # createColorVariations 0 0 0 3"
    unfolding red base by blast
  with len l3 five show ?thesis
    by (simp add: nth_append)
qed

subsection \<open>A crop that is too small\<close>

text \<open>
  Claim C7. When the rectangle of a crop, after its corners are ordered, mapped to the
  image and clamped to the image, is less than 10 wide or less than 10 high,
  \<open>executeCropPrefill\<close> only shows the notification that the selection is too small:
  no extraction runs, and the palette and the undo stack are as before.
\<close>

theorem executeCropPrefill_too_small:
  assumes "currentImage st = Some img" and "cropStartX st = Some startX" and "0 < zoom st"
    and "cropRect st img startX = (imgX1, imgY1, cropWidth, cropHeight)"
    and "cropWidth < 10 \<or> cropHeight < 10"
  shows "executeCropPrefill getPalette st
           = st\<lparr>messages := messages st @ [Notification ''Selection too small. Please try again.'']\<rparr>
       \<and> palette (executeCropPrefill getPalette st) = palette st
       \<and> history (executeCropPrefill getPalette st) = history st
       \<and> colors (executeCropPrefill getPalette st) = colors st
       \<and> undoStack (executeCropPrefill getPalette st) = undoStack st
       \<and> heap (executeCropPrefill getPalette st) = heap st"
proof -
  from assms have "executeCropPrefill getPalette st
      = st\<lparr>messages := messages st @ [Notification ''Selection too small. Please try again.'']\<rparr>"
    by (auto simp: executeCropPrefill_def MIN_CROP_SIZE_def)
  then show ?thesis
    by (simp add: palette_def history_def)
qed

theorem executeCropPrefill_too_small_witness:
  "currentImage narrowCrop = Some largeImage \<and> cropStartX narrowCrop = Some 10
   \<and> 0 < zoom narrowCrop
   \<and> cropRect narrowCrop largeImage 10 = (10, 10, 5, 50)
   \<and> executeCropPrefill twoColours narrowCrop
       = narrowCrop\<lparr>messages := [Notification ''Selection too small. Please try again.'']\<rparr>
   \<and> palette (executeCropPrefill twoColours narrowCrop) = []
   \<and> history (executeCropPrefill twoColours narrowCrop) = []"
proof -
  have h1: "currentImage narrowCrop = Some largeImage"
    and h2: "cropStartX narrowCrop = Some 10"
    and h3: "0 < zoom narrowCrop"
    and ms: "messages narrowCrop = []"
    by (simp_all add: narrowCrop_def initialState_def)
  have h4: "cropRect narrowCrop largeImage 10 = (10, 10, 5, 50)"
    by (simp add: cropRect_def canvasToImageCoords_def narrowCrop_def initialState_def
        largeImage_def Let_def)
  have before: "palette narrowCrop = []" "history narrowCrop = []"
    by (simp_all add: palette_def history_def narrowCrop_def initialState_def)
  have small: "(5 :: int) < 10 \<or> (50 :: int) < 10"
    by simp
  note inst = executeCropPrefill_too_small [OF h1 h2 h3 h4 small, of twoColours]
  from inst have "executeCropPrefill twoColours narrowCrop
      = narrowCrop\<lparr>messages := messages narrowCrop
          @ [Notification ''Selection too small. Please try again.'']\<rparr>"
    by blast
  with ms have shown: "executeCropPrefill twoColours narrowCrop
      = narrowCrop\<lparr>messages := [Notification ''Selection too small. Please try again.'']\<rparr>"
    by simp
  from inst have "palette (executeCropPrefill twoColours narrowCrop) = palette narrowCrop"
    "history (executeCropPrefill twoColours narrowCrop) = history narrowCrop"
    by blast+
  with before have "palette (executeCropPrefill twoColours narrowCrop) = []"
    "history (executeCropPrefill twoColours narrowCrop) = []"
    by simp_all
  with shown h1 h2 h3 h4 show ?thesis by blast
qed

subsection \<open>Export as text\<close>

lemma exportColors_two:
  "palette st = [x, y] \<Longrightarrow> exportColors st = Some (x @ '', '' @ y)"
  by (simp add: exportColors_def palette_def)

text \<open>
  Claim C8, as the spec states it: exporting the palette \<open>[#aabbcc, #112233]\<close> yields
  \<open>#AABBCC, #112233\<close>. The script joins the strings as they are stored, and
  \<open>rgbToHex\<close> stores lower case.
\<close>

theorem exportColors_uppercase_counterexample:
  "rgbToHex 170 187 204 = ''#aabbcc'' \<and> rgbToHex 17 34 51 = ''#112233''
   \<and> exportColors (withPalette [''#aabbcc'', ''#112233'']) = Some ''#aabbcc, #112233''
   \<and> exportColors (withPalette [''#aabbcc'', ''#112233'']) \<noteq> Some ''#AABBCC, #112233''"
proof -
  have "rgbToHex 170 187 204 = ''#aabbcc''" "rgbToHex 17 34 51 = ''#112233''"
    by code_simp+
  moreover have "palette (withPalette [''#aabbcc'', ''#112233'']) = [''#aabbcc'', ''#112233'']"
    by (simp add: palette_def withPalette_def loadedState_def initialState_def)
  then have "exportColors (withPalette [''#aabbcc'', ''#112233'']) = Some ''#aabbcc, #112233''"
    by (simp add: exportColors_two)
  ultimately show ?thesis by simp
qed

text \<open>
  Claim C8, amended. For every non-empty palette, export as text produces the strings
  of the palette as they are stored, joined by a comma and a space, with no change of
  case; exporting \<open>[#aabbcc, #112233]\<close> yields \<open>#aabbcc, #112233\<close>.
\<close>

theorem exportColors_joins_stored:
  assumes "palette st \<noteq> []"
  shows "exportColors st = Some (join (palette st) '', '')
       \<and> (palette st = [''#aabbcc'', ''#112233'']
            \<longrightarrow> exportColors st = Some ''#aabbcc, #112233'')
       \<and> (\<forall>x y. palette st = [x, y] \<longrightarrow> exportColors st = Some (x @ '', '' @ y))"
  using assms by (auto simp: exportColors_def palette_def)

theorem exportColors_joins_stored_witness:
  "palette (withPalette [''#aabbcc'', ''#112233'']) = [''#aabbcc'', ''#112233'']
   \<and> exportColors (withPalette [''#aabbcc'', ''#112233'']) = Some ''#aabbcc, #112233''"
proof -
  have p: "palette (withPalette [''#aabbcc'', ''#112233'']) = [''#aabbcc'', ''#112233'']"
    by (simp add: palette_def withPalette_def loadedState_def initialState_def)
  then have "palette (withPalette [''#aabbcc'', ''#112233'']) \<noteq> []" by simp
  from exportColors_joins_stored [OF this] p show ?thesis by blast
qed

subsection \<open>Channels out of range\<close>

lemma length_hexDigits_pos: "length (hexDigits n) \<ge> 1"
  by (subst hexDigits.simps) simp

lemma length_hexDigits_big: "n \<ge> 256 \<Longrightarrow> length (hexDigits n) \<ge> 3"
proof -
  assume big: "n \<ge> 256"
  then have "\<not> n < 16" and "\<not> n div 16 < 16" by linarith+
  then have "hexDigits n = (hexDigits (n div 16 div 16) @ [hexDigit (n div 16 mod 16)]) @ [hexDigit (n mod 16)]"
    by (subst hexDigits.simps, simp, subst hexDigits.simps, simp)
  with length_hexDigits_pos [of "n div 16 div 16"] show ?thesis by simp
qed

lemma length_padHex_ge: "length (padHex x) \<ge> 2"
  using length_hexDigits_pos [of "nat x"] length_hexDigits_pos [of "nat (- x)"]
  by (auto simp: padHex_def toString16_def Let_def)

lemma length_padHex_big: "x > 255 \<Longrightarrow> length (padHex x) \<ge> 3"
proof -
  assume "x > 255"
  then have "nat x \<ge> 256" by linarith
  then have "length (hexDigits (nat x)) \<ge> 3" by (rule length_hexDigits_big)
  with \<open>x > 255\<close> show ?thesis
    by (simp add: padHex_def toString16_def Let_def)
qed

lemma padHex_negative: "x < 0 \<Longrightarrow> \<not> list_all isHexDigit (padHex x)"
  using length_hexDigits_pos [of "nat (- x)"]
  by (auto simp: padHex_def toString16_def Let_def isHexDigit_def)

lemma hexToRgb_rgbToHex_body:
  "hexToRgb (rgbToHex r g b) \<noteq> None \<longleftrightarrow>
     length (padHex r) + length (padHex g) + length (padHex b) = 6
     \<and> list_all isHexDigit (padHex r) \<and> list_all isHexDigit (padHex g)
     \<and> list_all isHexDigit (padHex b)"
  by (auto simp: hexToRgb_def rgbToHex_def Let_def)

lemma rgbToHex_out_of_range:
  assumes "\<not> (0 \<le> r \<and> r \<le> 255 \<and> 0 \<le> g \<and> g \<le> 255 \<and> 0 \<le> b \<and> b \<le> 255)"
  shows "hexToRgb (rgbToHex r g b) = None"
proof (rule ccontr)
  assume "hexToRgb (rgbToHex r g b) \<noteq> None"
  with hexToRgb_rgbToHex_body [of r g b]
  have len: "length (padHex r) + length (padHex g) + length (padHex b) = 6"
    and dig: "list_all isHexDigit (padHex r)" "list_all isHexDigit (padHex g)"
      "list_all isHexDigit (padHex b)"
    by blast+
  from dig have nonneg: "0 \<le> r" "0 \<le> g" "0 \<le> b"
    using padHex_negative by (meson not_le)+
  from len length_padHex_ge [of r] length_padHex_ge [of g] length_padHex_ge [of b]
  have "length (padHex r) = 2" "length (padHex g) = 2" "length (padHex b) = 2"
    by linarith+
  with length_padHex_big [of r] length_padHex_big [of g] length_padHex_big [of b]
  have "r \<le> 255" "g \<le> 255" "b \<le> 255"
    by (force simp: not_le [symmetric])+
  with nonneg assms show False by simp
qed

text \<open>
  Claim C9, as the spec states it: for a channel outside \<open>[0, 255]\<close> \<open>rgbToHex\<close>
  fails or clamps, and never returns a string that is not six hexadecimal digits. The
  script does neither: 256 gives seven digits and a negative channel a minus sign.
\<close>

theorem rgbToHex_out_of_range_counterexample:
  "rgbToHex 256 0 0 = ''#1000000'' \<and> rgbToHex 256 0 0 \<noteq> rgbToHex 255 0 0
   \<and> hexToRgb (rgbToHex 256 0 0) = None
   \<and> rgbToHex (- 1) 0 0 = ''#-10000'' \<and> hexToRgb (rgbToHex (- 1) 0 0) = None"
  by code_simp

text \<open>
  Claim C9, amended. \<open>rgbToHex\<close> neither checks nor clamps its channels: it always
  returns a string, which is a \<open>#\<close> and six hexadecimal digits that read back as the
  channels when every channel is an integer in \<open>[0, 255]\<close>, and which is not a colour
  string (\<open>hexToRgb\<close> rejects it) as soon as one integer channel is outside.
\<close>

theorem rgbToHex_wellformed_iff_in_range:
  "(0 \<le> r \<and> r \<le> 255 \<and> 0 \<le> g \<and> g \<le> 255 \<and> 0 \<le> b \<and> b \<le> 255
      \<longrightarrow> length (rgbToHex r g b) = 7 \<and> hd (rgbToHex r g b) = CHR ''#''
          \<and> list_all isHexDigit (tl (rgbToHex r g b))
          \<and> hexToRgb (rgbToHex r g b) = Some (r, g, b))
   \<and> (\<not> (0 \<le> r \<and> r \<le> 255 \<and> 0 \<le> g \<and> g \<le> 255 \<and> 0 \<le> b \<and> b \<le> 255)
      \<longrightarrow> hexToRgb (rgbToHex r g b) = None)"
proof -
  have "length (rgbToHex r g b) = 7 \<and> hd (rgbToHex r g b) = CHR ''#''
      \<and> list_all isHexDigit (tl (rgbToHex r g b))"
    if "0 \<le> r" "r \<le> 255" "0 \<le> g" "g \<le> 255" "0 \<le> b" "b \<le> 255"
    using that by (simp add: rgbToHex_def length_padHex list_all_padHex)
  then show ?thesis
    by (simp add: hexToRgb_rgbToHex rgbToHex_out_of_range)
qed

theorem rgbToHex_wellformed_iff_in_range_witness:
  "rgbToHex 18 52 86 = ''#123456'' \<and> hexToRgb (rgbToHex 18 52 86) = Some (18, 52, 86)
   \<and> rgbToHex 300 0 0 = ''#12c0000'' \<and> hexToRgb (rgbToHex 300 0 0) = None"
proof -
  have "rgbToHex 18 52 86 = ''#123456''" "rgbToHex 300 0 0 = ''#12c0000''"
    by code_simp+
  moreover from rgbToHex_wellformed_iff_in_range [of 18 52 86]
  have "hexToRgb (rgbToHex 18 52 86) = Some (18, 52, 86)" by simp
  moreover from rgbToHex_wellformed_iff_in_range [of 300 0 0]
  have "hexToRgb (rgbToHex 300 0 0) = None" by simp
  ultimately show ?thesis by simp
qed

subsection \<open>The divisor of the average\<close>

lemma sampleStep_cnt:
  "snd (snd (snd (sampleStep img x y acc off))) =
     snd (snd (snd acc))
     + (if 0 \<le> x + fst off \<and> 0 \<le> y + snd off \<and> x + fst off < int (width img)
           \<and> y + snd off < int (height img) then 1 else 0)"
  by (cases acc; cases off) (auto simp: sampleStep_def Let_def split: prod.splits)

lemma foldl_sampleStep_cnt_mono:
  "snd (snd (snd acc)) \<le> snd (snd (snd (foldl (sampleStep img x y) acc offs)))"
proof (induction offs arbitrary: acc)
  case Nil
  then show ?case by simp
next
  case (Cons off offs)
  have "snd (snd (snd acc)) \<le> snd (snd (snd (sampleStep img x y acc off)))"
    by (simp add: sampleStep_cnt)
  also note Cons.IH [of "sampleStep img x y acc off"]
  finally show ?case by simp
qed

lemma foldl_sampleStep_cnt_inside:
  assumes "off \<in> set offs"
    and "0 \<le> x + fst off" "0 \<le> y + snd off" "x + fst off < int (width img)"
      "y + snd off < int (height img)"
  shows "snd (snd (snd acc)) < snd (snd (snd (foldl (sampleStep img x y) acc offs)))"
  using assms(1)
proof (induction offs arbitrary: acc)
  case Nil
  then show ?case by simp
next
  case (Cons o1 offs)
  show ?case
  proof (cases "o1 = off")
    case True
    with assms(2-) have "snd (snd (snd acc)) < snd (snd (snd (sampleStep img x y acc o1)))"
      by (simp add: sampleStep_cnt)
    also note foldl_sampleStep_cnt_mono [of "sampleStep img x y acc o1" img x y offs]
    finally show ?thesis by simp
  next
    case False
    with Cons.prems have "off \<in> set offs" by simp
    from Cons.IH [OF this, of "sampleStep img x y acc o1"]
    have "snd (snd (snd (sampleStep img x y acc o1)))
        < snd (snd (snd (foldl (sampleStep img x y) (sampleStep img x y acc o1) offs)))" .
    moreover have "snd (snd (snd acc)) \<le> snd (snd (snd (sampleStep img x y acc o1)))"
      by (simp add: sampleStep_cnt)
    ultimately show ?thesis by simp
  qed
qed



lemma sampleSums_cnt_inside:
  assumes "0 \<le> x" "x < int (width img)" "0 \<le> y" "y < int (height img)"
  shows "1 \<le> snd (snd (snd (sampleSums img x y)))"
proof -
  have "(0, 0) \<in> set [(dx, dy). dy \<leftarrow> [- 1, 0, 1 :: int], dx \<leftarrow> [- 1, 0, 1 :: int]]"
    by simp
  from foldl_sampleStep_cnt_inside [OF this, of x y img "(0, 0, 0, 0)"] assms
  show ?thesis by (simp add: sampleSums_def)
qed


lemma floor_inside:
  fixes q :: rat
  assumes "\<not> q < 0" "\<not> of_nat n \<le> q"
  shows "0 \<le> \<lfloor>q\<rfloor> \<and> \<lfloor>q\<rfloor> < int n"
proof -
  from assms have "0 \<le> q" "q < of_int (int n)" by simp_all
  then show ?thesis by (simp add: floor_less_iff)
qed

lemma pickColorAtPoint_accepted:
  assumes "wf st" "currentImage st = Some img" "length (palette st) < MAX_COLORS"
    and "canvasToImageCoords st canvasX canvasY = (imageX, imageY)"
    and "\<not> (imageX < 0 \<or> imageY < 0 \<or> of_nat (width img) \<le> imageX
            \<or> of_nat (height img) \<le> imageY)"
  shows "0 \<le> \<lfloor>imageX\<rfloor> \<and> \<lfloor>imageX\<rfloor> < int (width img)
       \<and> 0 \<le> \<lfloor>imageY\<rfloor> \<and> \<lfloor>imageY\<rfloor> < int (height img)
       \<and> (\<exists>color. sampleArea img \<lfloor>imageX\<rfloor> \<lfloor>imageY\<rfloor> = Some color
             \<and> palette (pickColorAtPoint st canvasX canvasY) = palette st @ [hexOfRgb color])"
proof -
  from assms(5) have fx: "0 \<le> \<lfloor>imageX\<rfloor>" "\<lfloor>imageX\<rfloor> < int (width img)"
    and fy: "0 \<le> \<lfloor>imageY\<rfloor>" "\<lfloor>imageY\<rfloor> < int (height img)"
    by (simp_all add: floor_inside)
  from sampleSums_cnt_inside [OF fx fy]
  obtain color where color: "sampleArea img \<lfloor>imageX\<rfloor> \<lfloor>imageY\<rfloor> = Some color"
    by (cases "sampleSums img \<lfloor>imageX\<rfloor> \<lfloor>imageY\<rfloor>") (auto simp: sampleArea_def)
  from assms(1) have "colors st \<noteq> nextRef st" by (simp add: wf_def)
  with assms(2-5) color
  have "palette (pickColorAtPoint st canvasX canvasY) = palette st @ [hexOfRgb color]"
    by (simp add: pickColorAtPoint_def palette_def saveState_fields Let_def not_le)
  with fx fy color show ?thesis by simp
qed



subsection \<open>Colours stay colours\<close>

text \<open>
  The HSL conversions keep their ranges, so every variation is a colour; a sample is a
  colour; and so every palette the operations build, and every saved palette, is a list
  of colours, on which \<open>sortByHue\<close> does not throw.
\<close>

lemma Math_round_range:
  assumes "0 \<le> x" "x \<le> 1"
  shows "0 \<le> Math_round (x * 255) \<and> Math_round (x * 255) \<le> 255"
proof -
  from assms have "0 \<le> x * 255 + 1 / 2" by simp
  then have lo: "0 \<le> \<lfloor>x * 255 + 1 / 2\<rfloor>" by simp
  from assms have "x * 255 + 1 / 2 < 256" by simp
  then have "\<lfloor>x * 255 + 1 / 2\<rfloor> < 256" by (simp add: floor_less_iff)
  with lo show ?thesis by (simp add: Math_round_def)
qed

lemma hue2rgb_range:
  assumes "p \<le> q" "- 1 \<le> t0"
  shows "p \<le> hue2rgb p q t0 \<and> hue2rgb p q t0 \<le> q"
proof -
  define t1 where "t1 = (if t0 < 0 then t0 + 1 else t0)"
  define t where "t = (if t1 > 1 then t1 - 1 else t1)"
  from assms(2) have "0 \<le> t1" by (simp add: t1_def)
  then have t0: "0 \<le> t" by (simp add: t_def)
  have eq: "hue2rgb p q t0 =
      (if t < 1 / 6 then p + (q - p) * 6 * t
       else if t < 1 / 2 then q
       else if t < 2 / 3 then p + (q - p) * (2 / 3 - t) * 6
       else p)"
    by (simp add: hue2rgb_def t_def t1_def Let_def)
  from assms(1) have d: "0 \<le> q - p" by simp
  have between: "p \<le> p + (q - p) * u \<and> p + (q - p) * u \<le> q" if "0 \<le> u" "u \<le> 1" for u
  proof -
    from d that have "0 \<le> (q - p) * u"
      by (simp only: mult_nonneg_nonneg)
    moreover from that(2) d have "(q - p) * u \<le> q - p"
      by (rule mult_left_le)
    ultimately show ?thesis by simp
  qed
  have first: "p \<le> p + (q - p) * 6 * t \<and> p + (q - p) * 6 * t \<le> q" if "t < 1 / 6"
  proof -
    from that t0 have "0 \<le> 6 * t" "6 * t \<le> 1" by simp_all
    from between [OF this] show ?thesis by (simp only: mult.assoc)
  qed
  have third: "p \<le> p + (q - p) * (2 / 3 - t) * 6 \<and> p + (q - p) * (2 / 3 - t) * 6 \<le> q"
    if "\<not> t < 1 / 2" "t < 2 / 3"
  proof -
    from that have "0 \<le> (2 / 3 - t) * 6" "(2 / 3 - t) * 6 \<le> 1" by simp_all
    from between [OF this] show ?thesis by (simp only: mult.assoc)
  qed
  from first third assms(1) show ?thesis
    unfolding eq by auto
qed

lemma hslToRgb_range:
  assumes "0 \<le> h0" "0 \<le> s0" "s0 \<le> 100" "0 \<le> l0" "l0 \<le> 100"
    and "hslToRgb h0 s0 l0 = (r, g, b)"
  shows "0 \<le> r \<and> r \<le> 255 \<and> 0 \<le> g \<and> g \<le> 255 \<and> 0 \<le> b \<and> b \<le> 255"
proof -
  define h s l where "h = h0 / 360" and "s = s0 / 100" and "l = l0 / 100"
  define q where "q = (if l < 1 / 2 then l * (1 + s) else l + s - l * s)"
  define p where "p = 2 * l - q"
  define X where "X = (if s = 0 then (l, l, l)
      else (hue2rgb p q (h + 1 / 3), hue2rgb p q h, hue2rgb p q (h - 1 / 3)))"
  have unfolded: "hslToRgb h0 s0 l0 =
      (case X of (r, g, b) \<Rightarrow> (Math_round (r * 255), Math_round (g * 255), Math_round (b * 255)))"
    unfolding hslToRgb_def X_def p_def q_def h_def s_def l_def Let_def ..
  from assms have rng: "0 \<le> h" "0 \<le> s" "s \<le> 1" "0 \<le> l" "l \<le> 1"
    by (simp_all add: h_def s_def l_def)
  have ls: "0 \<le> l * s" "l * s \<le> l" "l * s \<le> s"
    using rng by (simp_all add: mult_left_le mult_right_le_one_le mult_left_le_one_le)
  from rng have "(1 - l) * s \<le> (1 - l) * 1"
    by (intro mult_left_mono) simp_all
  then have ls': "s - l * s \<le> 1 - l"
    by (simp add: algebra_simps)
  have pq: "0 \<le> p" "p \<le> q" "q \<le> 1"
    using rng ls ls' by (auto simp: p_def q_def algebra_simps)
  have unit: "0 \<le> hue2rgb p q t \<and> hue2rgb p q t \<le> 1" if "- 1 \<le> t" for t
    using hue2rgb_range [OF pq(2) that] pq by simp
  from rng(1) have ts: "- 1 \<le> h + 1 / 3" "- 1 \<le> h" "- 1 \<le> h - 1 / 3"
    by simp_all
  obtain x y z where X: "X = (x, y, z)" by (cases X)
  have "0 \<le> x \<and> x \<le> 1 \<and> 0 \<le> y \<and> y \<le> 1 \<and> 0 \<le> z \<and> z \<le> 1"
  proof (cases "s = 0")
    case True
    with X rng show ?thesis by (simp add: X_def)
  next
    case False
    with X have "x = hue2rgb p q (h + 1 / 3)" "y = hue2rgb p q h" "z = hue2rgb p q (h - 1 / 3)"
      by (simp_all add: X_def)
    with unit ts show ?thesis by blast
  qed
  moreover from assms(6) unfolded X
  have "r = Math_round (x * 255)" "g = Math_round (y * 255)" "b = Math_round (z * 255)"
    by simp_all
  ultimately show ?thesis
    using Math_round_range by blast
qed

lemma rgbToHsl_range:
  assumes "0 \<le> r0" "r0 \<le> 255" "0 \<le> g0" "g0 \<le> 255" "0 \<le> b0" "b0 \<le> 255"
    and "rgbToHsl r0 g0 b0 = (h, s, l)"
  shows "0 \<le> h \<and> 0 \<le> s \<and> s \<le> 100 \<and> 0 \<le> l \<and> l \<le> 100"
proof -
  define r g b where "r = (of_int r0 :: rat) / 255" and "g = (of_int g0 :: rat) / 255"
    and "b = (of_int b0 :: rat) / 255"
  define mx mn where "mx = max r (max g b)" and "mn = min r (min g b)"
  define l' where "l' = (mx + mn) / 2"
  define d where "d = mx - mn"
  define s' where "s' = (if l' > 1 / 2 then d / (2 - mx - mn) else d / (mx + mn))"
  define h' where "h' = (if mx = r then ((g - b) / d + (if g < b then 6 else 0)) / 6
                    else if mx = g then ((b - r) / d + 2) / 6
                    else ((r - g) / d + 4) / 6)"
  have unfolded: "rgbToHsl r0 g0 b0 =
      (if mx = mn then (0 * 360, 0 * 100, l' * 100) else (h' * 360, s' * 100, l' * 100))"
    unfolding rgbToHsl_def h'_def s'_def d_def l'_def mx_def mn_def r_def g_def b_def Let_def ..
  from assms have rng: "0 \<le> r" "r \<le> 1" "0 \<le> g" "g \<le> 1" "0 \<le> b" "b \<le> 1"
    by (simp_all add: r_def g_def b_def)
  then have ext: "0 \<le> mn" "mx \<le> 1" "mn \<le> mx" "mn \<le> r" "mn \<le> g" "mn \<le> b"
    "r \<le> mx" "g \<le> mx" "b \<le> mx"
    by (simp_all add: mx_def mn_def)
  then have lr: "0 \<le> l'" "l' \<le> 1"
    by (simp_all add: l'_def)
  show ?thesis
  proof (cases "mx = mn")
    case True
    with assms(7) unfolded lr show ?thesis by auto
  next
    case False
    with ext have dpos: "0 < d" by (simp add: d_def)
    from False ext have den: "0 < 2 - mx - mn" "0 < mx + mn" by linarith+
    have sr: "0 \<le> s'" "s' \<le> 1"
      using dpos den ext by (simp_all add: s'_def d_def)
    have diff: "- 1 \<le> (x - y) / d" if "mn \<le> x" "y \<le> mx" for x y
    proof -
      from that have "- d \<le> x - y" by (simp add: d_def)
      with dpos show ?thesis by (simp add: le_divide_eq)
    qed
    have dnn: "0 \<le> (x - y) / d" if "y \<le> x" for x y
      using that dpos by simp
    have "0 \<le> h'"
    proof (cases "g < b")
      case True
      with diff [of g b] diff [of b r] diff [of r g] ext show ?thesis
        by (auto simp: h'_def)
    next
      case False
      with dnn [of b g] diff [of b r] diff [of r g] ext show ?thesis
        by (auto simp: h'_def)
    qed
    with False assms(7) unfolded lr sr show ?thesis by auto
  qed
qed

lemma isColor_hexOfRgb:
  "hslToRgb h s l = c \<Longrightarrow> 0 \<le> h \<Longrightarrow> 0 \<le> s \<Longrightarrow> s \<le> 100 \<Longrightarrow> 0 \<le> l \<Longrightarrow> l \<le> 100
   \<Longrightarrow> isColor (hexOfRgb c)"
  by (cases c) (auto simp: isColor_def hexOfRgb_def hexToRgb_rgbToHex dest!: hslToRgb_range [rotated -1])

lemma isColor_createColorVariations:
  assumes "0 \<le> r" "r \<le> 255" "0 \<le> g" "g \<le> 255" "0 \<le> b" "b \<le> 255"
  shows "list_all isColor (createColorVariations r g b cnt)"
proof -
  obtain h s l where hsl: "rgbToHsl r g b = (h, s, l)"
    by (cases "rgbToHsl r g b")
  from rgbToHsl_range [OF assms hsl]
  have rng: "0 \<le> h" "0 \<le> s" "s \<le> 100" "0 \<le> l" "l \<le> 100" by simp_all
  then have "isColor (hexOfRgb (hslToRgb h s (min 100 (l + 15))))"
    "isColor (hexOfRgb (hslToRgb h s (max 0 (l - 15))))"
    "isColor (hexOfRgb (hslToRgb h (max 0 (s - 30)) l))"
    "isColor (hexOfRgb (hslToRgb h (min 100 (s + 20)) l))"
    by (auto intro!: isColor_hexOfRgb [OF refl])
  then have "list_all isColor
      [hexOfRgb (hslToRgb h s (min 100 (l + 15))), hexOfRgb (hslToRgb h s (max 0 (l - 15))),
       hexOfRgb (hslToRgb h (max 0 (s - 30)) l), hexOfRgb (hslToRgb h (min 100 (s + 20)) l)]"
    by simp
  then show ?thesis
    using hsl by (auto simp: createColorVariations_def Let_def list_all_iff dest: in_set_takeD)
qed

lemma Math_round_channel:
  assumes "0 \<le> y" "y \<le> 255"
  shows "0 \<le> Math_round y \<and> Math_round y \<le> 255"
proof -
  from assms have "0 \<le> y + 1 / 2" by simp
  then have lo: "0 \<le> \<lfloor>y + 1 / 2\<rfloor>" by simp
  from assms have "y + 1 / 2 < 256" by simp
  then have "\<lfloor>y + 1 / 2\<rfloor> < 256" by (simp add: floor_less_iff)
  with lo show ?thesis by (simp add: Math_round_def)
qed

lemma uint_byte: "0 \<le> uint (w :: 8 word) \<and> uint w \<le> 255"
  using uint_bounded [of w] by simp

lemma sampleStep_sums:
  assumes "sampleStep img x y (r, g, b, cnt) off = (r', g', b', cnt')"
    and "0 \<le> r \<and> r \<le> 255 * int cnt" "0 \<le> g \<and> g \<le> 255 * int cnt"
      "0 \<le> b \<and> b \<le> 255 * int cnt"
  shows "(0 \<le> r' \<and> r' \<le> 255 * int cnt') \<and> (0 \<le> g' \<and> g' \<le> 255 * int cnt')
    \<and> (0 \<le> b' \<and> b' \<le> 255 * int cnt')"
proof (cases off)
  case (Pair dx dy)
  obtain pr pg pb where px: "pixels img (x + dx) (y + dy) = (pr, pg, pb)"
    by (cases "pixels img (x + dx) (y + dy)")
  from assms Pair px uint_byte [of pr] uint_byte [of pg] uint_byte [of pb] show ?thesis
    by (auto simp: sampleStep_def Let_def split: if_splits)
qed

lemma foldl_sampleStep_sums:
  assumes "foldl (sampleStep img x y) (r, g, b, cnt) offs = (r', g', b', cnt')"
    and "0 \<le> r \<and> r \<le> 255 * int cnt" "0 \<le> g \<and> g \<le> 255 * int cnt"
      "0 \<le> b \<and> b \<le> 255 * int cnt"
  shows "(0 \<le> r' \<and> r' \<le> 255 * int cnt') \<and> (0 \<le> g' \<and> g' \<le> 255 * int cnt')
    \<and> (0 \<le> b' \<and> b' \<le> 255 * int cnt')"
  using assms
proof (induction offs arbitrary: r g b cnt)
  case Nil
  then show ?case by simp
next
  case (Cons off offs)
  obtain r1 g1 b1 cnt1 where step: "sampleStep img x y (r, g, b, cnt) off = (r1, g1, b1, cnt1)"
    by (cases "sampleStep img x y (r, g, b, cnt) off")
  from sampleStep_sums [OF step Cons.prems(2-4)]
  have bounds: "0 \<le> r1 \<and> r1 \<le> 255 * int cnt1" "0 \<le> g1 \<and> g1 \<le> 255 * int cnt1"
    "0 \<le> b1 \<and> b1 \<le> 255 * int cnt1"
    by simp_all
  from Cons.prems(1) step
  have "foldl (sampleStep img x y) (r1, g1, b1, cnt1) offs = (r', g', b', cnt')"
    by simp
  from Cons.IH [OF this bounds] show ?case .
qed

lemma average_channel:
  assumes "0 \<le> r \<and> r \<le> 255 * int cnt" "cnt \<noteq> 0"
  shows "0 \<le> Math_round (of_int r / of_nat cnt) \<and> Math_round (of_int r / of_nat cnt) \<le> 255"
proof (rule Math_round_channel)
  from assms show "0 \<le> (of_int r :: rat) / of_nat cnt" by simp
  from assms have "(of_int r :: rat) \<le> of_int (255 * int cnt)"
    by (simp only: of_int_le_iff)
  with assms(2) show "(of_int r :: rat) / of_nat cnt \<le> 255"
    by (simp add: divide_le_eq)
qed

lemma sampleArea_inGamut: "sampleArea img x y = Some c \<Longrightarrow> inGamut c"
proof -
  assume res: "sampleArea img x y = Some c"
  obtain r g b cnt where sums: "sampleSums img x y = (r, g, b, cnt)"
    by (cases "sampleSums img x y")
  then have "foldl (sampleStep img x y) (0, 0, 0, 0)
      [(dx, dy). dy \<leftarrow> [- 1, 0, 1], dx \<leftarrow> [- 1, 0, 1]] = (r, g, b, cnt)"
    by (simp only: sampleSums_def)
  from foldl_sampleStep_sums [OF this]
  have bounds: "0 \<le> r \<and> r \<le> 255 * int cnt" "0 \<le> g \<and> g \<le> 255 * int cnt"
    "0 \<le> b \<and> b \<le> 255 * int cnt"
    by simp_all
  from res sums have "cnt \<noteq> 0"
    and "c = (Math_round (of_int r / of_nat cnt), Math_round (of_int g / of_nat cnt),
              Math_round (of_int b / of_nat cnt))"
    by (auto simp: sampleArea_def split: if_splits)
  with bounds average_channel show ?thesis
    by (simp add: inGamut_def)
qed

lemma isColor_inGamut: "inGamut c \<Longrightarrow> isColor (hexOfRgb c)"
  by (cases c) (simp add: inGamut_def isColor_def hexOfRgb_def hexToRgb_rgbToHex)

lemma positionFrom_shift:
  "x \<in> set xs \<Longrightarrow> positionFrom xs x (i + k) = positionFrom xs x i + k"
proof (induction xs arbitrary: i)
  case Nil
  then show ?case by simp
next
  case (Cons y ys)
  show ?case
  proof (cases "y = x")
    case True
    then show ?thesis by simp
  next
    case False
    with Cons.prems have "x \<in> set ys" by simp
    from Cons.IH [OF this, of "i + 1"] False show ?thesis
      by (simp add: add.commute add.left_commute)
  qed
qed

lemma splice_indexOf:
  "x \<in> set xs \<Longrightarrow>
   take (nat (indexOf xs x)) xs @ drop (nat (indexOf xs x) + 1) xs = remove1 x xs"
proof (induction xs)
  case Nil
  then show ?case by simp
next
  case (Cons y ys)
  show ?case
  proof (cases "y = x")
    case True
    then show ?thesis by (simp add: indexOf_def)
  next
    case False
    with Cons.prems have mem: "x \<in> set ys" by simp
    from positionFrom_shift [OF mem, of 0 1] positionFrom_lower [OF mem, of 0]
    have "indexOf (y # ys) x = indexOf ys x + 1" "0 \<le> indexOf ys x"
      using False by (simp_all add: indexOf_def)
    then have "nat (indexOf (y # ys) x) = Suc (nat (indexOf ys x))"
      by simp
    with Cons.IH [OF mem] False show ?thesis by simp
  qed
qed

lemma palette_removeColor:
  assumes "wf st" "hex \<in> set (palette st)"
  shows "palette (removeColor st hex index) = remove1 hex (palette st)"
proof -
  from assms(2) have found: "indexOf (heap st (colors st)) hex > - 1"
    by (simp add: indexOf_found palette_def)
  from assms(1) have "colors st \<noteq> nextRef st" by (simp add: wf_def)
  with found have "palette (removeColor st hex index) =
      take (nat (indexOf (palette st) hex)) (palette st)
      @ drop (nat (indexOf (palette st) hex) + 1) (palette st)"
    by (simp add: removeColor_def palette_def saveState_fields Let_def)
  with splice_indexOf [OF assms(2)] show ?thesis by simp
qed

lemma palette_prefillPaletteFromImage:
  assumes "wf st"
  shows "palette (prefillPaletteFromImage getPalette st (Some img)) =
     (case getPalette img 20 of None \<Rightarrow> palette st | Some pal \<Rightarrow> map hexOfRgb pal)"
  using palette_saveState [OF assms]
  by (auto simp: prefillPaletteFromImage_def extractionFailed_def palette_def newArray_def Let_def
      split: option.splits)

lemma palette_prefillAdvancedPaletteFromImage:
  assumes "wf st"
  shows "palette (prefillAdvancedPaletteFromImage getPalette st (Some img)) =
     (case getPalette img 5 of None \<Rightarrow> palette st | Some pal \<Rightarrow> advancedColors pal)"
  using palette_saveState [OF assms]
  by (auto simp: prefillAdvancedPaletteFromImage_def extractionFailed_def palette_def
      newArray_def Let_def split: option.splits)

lemma palette_clearAll: "palette st \<noteq> [] \<Longrightarrow> palette (clearAll st) = []"
  by (simp add: clearAll_def palette_def newArray_def)

lemma isColor_advancedColors:
  assumes "list_all inGamut mainPalette"
  shows "list_all isColor (advancedColors mainPalette)"
proof -
  have slot: "isColor (rgbToHex r g b) \<and> list_all isColor (createColorVariations r g b cnt)"
    if "(i, r, g, b) \<in> set (enumerate 0 mainPalette)" for i r g b cnt
  proof -
    from that have "i < length mainPalette" "mainPalette ! i = (r, g, b)"
      by (simp_all add: in_set_enumerate_eq)
    with nth_mem [of i mainPalette] have "(r, g, b) \<in> set mainPalette"
      by simp
    with assms have "inGamut (r, g, b)"
      by (simp add: list_all_iff)
    then show ?thesis
      by (simp add: inGamut_def isColor_def hexToRgb_rgbToHex isColor_createColorVariations)
  qed
  have "isColor c" if "c \<in> set (advancedColors mainPalette)" for c
  proof -
    from that obtain i r g b where
      mem: "(i, r, g, b) \<in> set (enumerate 0 mainPalette)"
      and c: "c \<in> set (rgbToHex r g b
                # (if i = 0 then createColorVariations r g b 4
                   else createColorVariations r g b 3))"
      by (auto simp: advancedColors_def)
    from slot [OF mem, of 4] slot [OF mem, of 3] c show ?thesis
      by (auto simp: list_all_iff split: if_splits)
  qed
  then show ?thesis by (simp add: list_all_iff)
qed

lemma history_after_accepted:
  assumes "wf st" "coloursOnly st" "history st' = history (saveState st)"
  shows "list_all (list_all isColor) (history st')"
proof -
  from assms(2) have "list_all (list_all isColor) (history st @ [palette st])"
    by (simp add: coloursOnly_def)
  moreover from assms(2) have "list_all (list_all isColor) (tl (history st) @ [palette st])"
    by (cases "history st") (simp_all add: coloursOnly_def)
  ultimately show ?thesis
    by (simp add: assms(3) history_saveState [OF assms(1)])
qed

lemma coloursOnly_perform:
  assumes "wf st" "coloursOnly st" "channelsInRange getPalette"
  shows "coloursOnly (perform getPalette st x)"
proof (cases "accepted st x")
  case False
  with assms(2) show ?thesis by (simp add: perform_rejected)
next
  case True
  from perform_accepted [OF assms(1) True, of getPalette]
  have "history (perform getPalette st x) = history (saveState st)" by simp
  from history_after_accepted [OF assms(1,2) this]
  have saved: "list_all (list_all isColor) (history (perform getPalette st x))" .
  from assms(2) have pal: "list_all isColor (palette st)"
    by (simp add: coloursOnly_def)
  have "list_all isColor (palette (perform getPalette st x))"
  proof (cases x)
    case (Pick canvasX canvasY)
    with True obtain img where img: "currentImage st = Some img"
      and len: "length (palette st) < MAX_COLORS"
      and inside: "\<not> (fst (canvasToImageCoords st canvasX canvasY) < 0
              \<or> snd (canvasToImageCoords st canvasX canvasY) < 0
              \<or> of_nat (width img) \<le> fst (canvasToImageCoords st canvasX canvasY)
              \<or> of_nat (height img) \<le> snd (canvasToImageCoords st canvasX canvasY))"
      by (auto simp: not_le split: option.splits prod.splits)
    from pickColorAtPoint_accepted [OF assms(1) img len _ inside, of canvasX canvasY]
    obtain color where "sampleArea img \<lfloor>fst (canvasToImageCoords st canvasX canvasY)\<rfloor>
          \<lfloor>snd (canvasToImageCoords st canvasX canvasY)\<rfloor> = Some color"
      and "palette (pickColorAtPoint st canvasX canvasY) = palette st @ [hexOfRgb color]"
      by auto
    with Pick pal show ?thesis
      by (simp add: sampleArea_inGamut isColor_inGamut)
  next
    case PrefillBasic
    with True obtain img where img: "currentImage st = Some img" by auto
    have "list_all isColor (map hexOfRgb p)" if "getPalette img 20 = Some p" for p
      using that assms(3) by (auto simp: channelsInRange_def list_all_iff isColor_inGamut)
    with PrefillBasic img pal palette_prefillPaletteFromImage [OF assms(1), of getPalette img]
    show ?thesis
      by (cases "getPalette img 20") (simp_all add: prefillPalette_def)
  next
    case PrefillAdvanced
    with True obtain img where img: "currentImage st = Some img" by auto
    have "list_all isColor (advancedColors p)" if "getPalette img 5 = Some p" for p
      using that assms(3) by (auto simp: channelsInRange_def intro: isColor_advancedColors)
    with PrefillAdvanced img pal
      palette_prefillAdvancedPaletteFromImage [OF assms(1), of getPalette img]
    show ?thesis
      by (cases "getPalette img 5") (simp_all add: prefillAdvancedPalette_def)
  next
    case (Remove hex index)
    with True have "hex \<in> set (palette st)" by simp
    from palette_removeColor [OF assms(1) this, of index] Remove pal show ?thesis
      by (auto simp: list_all_iff dest: notin_set_remove1)
  next
    case Clear
    with True show ?thesis by (simp add: palette_clearAll)
  qed
  with saved show ?thesis by (simp add: coloursOnly_def)
qed

lemma coloursOnly_undo:
  assumes "wf st" "coloursOnly st"
  shows "coloursOnly (undo st)"
proof (cases "undoStack st = []")
  case True
  with assms(2) show ?thesis by (simp add: undo_empty)
next
  case False
  then have "history st \<noteq> []" by (simp add: history_def)
  then obtain hs p where split: "history st = hs @ [p]"
    by (cases "history st" rule: rev_cases) auto
  with assms False show ?thesis
    by (simp add: coloursOnly_def palette_undo history_undo)
qed

lemma initialState_invariants: "wf initialState \<and> coloursOnly initialState"
  by (simp add: wf_def coloursOnly_def palette_def history_def initialState_def)

lemma performAll_coloursOnly:
  "wf st \<Longrightarrow> coloursOnly st \<Longrightarrow> channelsInRange getPalette \<Longrightarrow>
   wf (performAll getPalette st xs) \<and> coloursOnly (performAll getPalette st xs)"
proof (induction xs arbitrary: st)
  case Nil
  then show ?case by simp
next
  case (Cons x xs)
  from Cons.prems have "wf (perform getPalette st x)" "coloursOnly (perform getPalette st x)"
    by (simp_all add: wf_perform coloursOnly_perform)
  from Cons.IH [OF this Cons.prems(3)] show ?case by simp
qed

lemma sortByHue_palette:
  assumes "wf st" "coloursOnly st"
  shows "\<exists>st' sortedRef. sortByHue st (colors st) = Inr (st', sortedRef)
     \<and> heap st' sortedRef = sort_key hue (palette st) \<and> palette st' = palette st"
  using assms
  by (simp add: coloursOnly_def palette_def sortByHue_result wf_def)

end
